theory Spec2Isabelle
  imports Main "HOL-Library.Word"
begin

unbundle bit_operations_syntax

section \<open>Data model\<close>

text \<open>
  Modelled from the spec: \<^verbatim>\<open>types.h\<close> is not among the sources. The spec's data model
  gives \<^verbatim>\<open>Byte\<close> as an unsigned 8-bit value and \<^verbatim>\<open>Word\<close> as an unsigned 16-bit value;
  arithmetic on both wraps around.
\<close>

type_synonym Byte = "8 word"
type_synonym Word = "16 word"

text \<open>\<^verbatim>\<open>cpu.h\<close>: the register file, the flag positions and the CPU record.\<close>

record Regs =
  A :: Byte
  X :: Byte
  Y :: Byte

datatype Flags = C | Z | I | D | B | U | V | N

text \<open>The enumerators' values: \<^verbatim>\<open>C = 0, Z = 1, I = 2, D = 3, B = 4, U = 5, V = 6, N = 7\<close>.\<close>

primrec Flags_val :: "Flags \<Rightarrow> nat" where
  "Flags_val C = 0"
| "Flags_val Z = 1"
| "Flags_val I = 2"
| "Flags_val D = 3"
| "Flags_val B = 4"
| "Flags_val U = 5"
| "Flags_val V = 6"
| "Flags_val N = 7"

record CPU =
  PC :: Word
  SP :: Byte
  regs :: Regs
  flags :: Byte

text \<open>
  \<^verbatim>\<open>memory.c\<close>: \<^verbatim>\<open>static Byte mem[MEM_SIZE]\<close> with \<^verbatim>\<open>MEM_SIZE = 64 * 1024\<close>; a 16-bit
  index is always in range, so the array is a total function on \<^typ>\<open>Word\<close>.
\<close>

type_synonym memory = "Word \<Rightarrow> Byte"

text \<open>
  The state behind the bus. \<open>mem\<close> is the array of \<^verbatim>\<open>memory.c\<close>. \<open>accesses\<close> is not a
  variable of the program: it records, in order, every call of \<^verbatim>\<open>bus_read\<close> and
  \<^verbatim>\<open>bus_write\<close> with its address (and the byte written), so that statements about which
  bus accesses a run performs can be made. No function reads it.
\<close>

datatype bus_access = Bus_Read Word | Bus_Write Word Byte

record bus =
  mem :: memory
  accesses :: "bus_access list"

section \<open>Memory and bus\<close>

definition mem_reset :: "memory" where
  "mem_reset = (\<lambda>addr. 0)"

definition mem_read :: "Word \<Rightarrow> memory \<Rightarrow> Byte" where
  "mem_read addr m = m addr"

definition mem_write :: "Word \<Rightarrow> Byte \<Rightarrow> memory \<Rightarrow> memory" where
  "mem_write addr data m = m(addr := data)"

definition MEM_START :: Word where
  "MEM_START = 0x0000"

definition MEM_END :: Word where
  "MEM_END = 0xFFFF"

definition bus_reset :: "bus \<Rightarrow> bus" where
  "bus_reset b = b\<lparr>mem := mem_reset\<rparr>"

definition bus_read :: "Word \<Rightarrow> bus \<Rightarrow> Byte \<times> bus" where
  "bus_read addr b =
     (let b = b\<lparr>accesses := accesses b @ [Bus_Read addr]\<rparr>
      in if addr \<ge> MEM_START \<and> addr \<le> MEM_END then (mem_read addr (mem b), b)
         else (0x00, b))"

definition bus_write :: "Word \<Rightarrow> Byte \<Rightarrow> bus \<Rightarrow> bus" where
  "bus_write addr data b =
     (let b = b\<lparr>accesses := accesses b @ [Bus_Write addr data]\<rparr>
      in if addr \<ge> MEM_START \<and> addr \<le> MEM_END then b\<lparr>mem := mem_write addr data (mem b)\<rparr>
         else b)"

section \<open>CPU primitives\<close>

text \<open>\<^verbatim>\<open>cpu_reset\<close> of the current \<^verbatim>\<open>cpu.c\<close>; it returns the CPU and the bus state.\<close>

definition cpu_reset :: "CPU \<Rightarrow> bus \<Rightarrow> CPU \<times> bus" where
  "cpu_reset cpu b =
     (let cpu = cpu\<lparr>PC := 0x01FF\<rparr>;
          cpu = cpu\<lparr>SP := 0xFF\<rparr>;
          cpu = cpu\<lparr>regs := (regs cpu)\<lparr>A := 0x00\<rparr>\<rparr>;
          cpu = cpu\<lparr>regs := (regs cpu)\<lparr>X := 0x00\<rparr>\<rparr>;
          cpu = cpu\<lparr>regs := (regs cpu)\<lparr>Y := 0x00\<rparr>\<rparr>;
          cpu = cpu\<lparr>flags := 0x24\<rparr>;
          b = bus_reset b
      in (cpu, b))"

text \<open>
  The earlier revision of \<^verbatim>\<open>cpu.c\<close>, which has no stack, branch or \<^verbatim>\<open>BRK\<close> code, resets
  to other constants. Only this function of that revision is modelled, for comparison.
\<close>

definition cpu_reset_old :: "CPU \<Rightarrow> bus \<Rightarrow> CPU \<times> bus" where
  "cpu_reset_old cpu b =
     (let cpu = cpu\<lparr>PC := 0x0100\<rparr>;
          cpu = cpu\<lparr>SP := ucast (0x00FD :: Word)\<rparr>;
          cpu = cpu\<lparr>regs := (regs cpu)\<lparr>A := 0x00\<rparr>\<rparr>;
          cpu = cpu\<lparr>regs := (regs cpu)\<lparr>X := 0x00\<rparr>\<rparr>;
          cpu = cpu\<lparr>regs := (regs cpu)\<lparr>Y := 0x00\<rparr>\<rparr>;
          cpu = cpu\<lparr>flags := 0x24\<rparr>;
          b = bus_reset b
      in (cpu, b))"

subsection \<open>Stack\<close>

text \<open>
  \<^verbatim>\<open>0x100 + cpu->SP\<close> is computed in \<^verbatim>\<open>int\<close> and lies in \<open>0x100 .. 0x1FF\<close>, so the
  conversion to the 16-bit parameter loses nothing.
\<close>

definition stack_push :: "Byte \<Rightarrow> CPU \<Rightarrow> bus \<Rightarrow> CPU \<times> bus" where
  "stack_push val cpu b =
     (let b = bus_write (0x100 + ucast (SP cpu)) val b;
          cpu = cpu\<lparr>SP := SP cpu - 1\<rparr>
      in (cpu, b))"

definition stack_pop :: "CPU \<Rightarrow> bus \<Rightarrow> Byte \<times> CPU \<times> bus" where
  "stack_pop cpu b =
     (let cpu = cpu\<lparr>SP := SP cpu + 1\<rparr>;
          (data, b) = bus_read (0x100 + ucast (SP cpu)) b
      in (data, cpu, b))"

subsection \<open>Flags\<close>

definition cpu_read_flag :: "Flags \<Rightarrow> CPU \<Rightarrow> Byte" where
  "cpu_read_flag flag cpu = drop_bit (Flags_val flag) (flags cpu) AND 0x01"

definition cpu_set_flag :: "Flags \<Rightarrow> Byte \<Rightarrow> CPU \<Rightarrow> CPU" where
  "cpu_set_flag flag val cpu =
     (let mask = push_bit (Flags_val flag) (0x01 :: Byte);
          cpu = (if val = 0 then cpu\<lparr>flags := flags cpu AND NOT mask\<rparr>
                 else cpu\<lparr>flags := flags cpu OR mask\<rparr>);
          mask = push_bit (Flags_val U) (0x01 :: Byte)
      in cpu\<lparr>flags := flags cpu OR mask\<rparr>)"

definition cpu_toggle_flag :: "Flags \<Rightarrow> CPU \<Rightarrow> CPU" where
  "cpu_toggle_flag flag cpu =
     (let mask = push_bit (Flags_val flag) (0x01 :: Byte)
      in cpu\<lparr>flags := flags cpu XOR mask\<rparr>)"

subsection \<open>Program fetch\<close>

definition fetch_program_byte :: "CPU \<Rightarrow> bus \<Rightarrow> Byte \<times> CPU \<times> bus" where
  "fetch_program_byte cpu b =
     (let (data, b) = bus_read (PC cpu) b;
          cpu = cpu\<lparr>PC := PC cpu + 1\<rparr>
      in (data, cpu, b))"

definition fetch_program_word :: "CPU \<Rightarrow> bus \<Rightarrow> Word \<times> CPU \<times> bus" where
  "fetch_program_word cpu b =
     (let (data_lo, cpu, b) = fetch_program_byte cpu b;
          (data_hi, cpu, b) = fetch_program_byte cpu b;
          data = ucast data_lo OR push_bit 8 (ucast data_hi)
      in (data, cpu, b))"

subsection \<open>Convenience helpers\<close>

text \<open>
  \<^verbatim>\<open>Byte *cycles\<close> is passed in and returned. \<^verbatim>\<open>Word addr = base + index\<close> is an \<^verbatim>\<open>int\<close>
  sum stored into 16 bits, hence the wrapping sum of \<^typ>\<open>Word\<close>; a C comparison yields 0 or 1.
\<close>

definition indexed_LDA_ABS :: "Byte \<Rightarrow> CPU \<Rightarrow> bus \<Rightarrow> Byte \<Rightarrow> Byte \<times> CPU \<times> bus" where
  "indexed_LDA_ABS cycles cpu b index =
     (let (base, cpu, b) = fetch_program_word cpu b;
          addr = base + ucast index;
          extra_cycle = (of_bool (addr AND 0xFF00 \<noteq> base AND 0xFF00) :: Byte);
          (data, b) = bus_read addr b;
          cpu = cpu\<lparr>regs := (regs cpu)\<lparr>A := data\<rparr>\<rparr>;
          cycles = cycles - (4 + extra_cycle)
      in (cycles, cpu, b))"

definition indexed_STA_ABS :: "CPU \<Rightarrow> bus \<Rightarrow> Byte \<Rightarrow> CPU \<times> bus" where
  "indexed_STA_ABS cpu b index =
     (let (base, cpu, b) = fetch_program_word cpu b;
          addr = base + ucast index;
          b = bus_write addr (A (regs cpu)) b
      in (cpu, b))"

definition indexed_AND_ABS :: "Byte \<Rightarrow> CPU \<Rightarrow> bus \<Rightarrow> Byte \<Rightarrow> Byte \<times> CPU \<times> bus" where
  "indexed_AND_ABS cycles cpu b index =
     (let (base, cpu, b) = fetch_program_word cpu b;
          addr = base + ucast index;
          extra_cycle = (of_bool (addr AND 0xFF00 \<noteq> base AND 0xFF00) :: Byte);
          (data, b) = bus_read addr b;
          cpu = cpu\<lparr>regs := (regs cpu)\<lparr>A := A (regs cpu) AND data\<rparr>\<rparr>;
          cycles = cycles - (4 + extra_cycle)
      in (cycles, cpu, b))"

text \<open>
  \<^verbatim>\<open>int8_t signed_offset = operand\<close> reads the byte as two's complement, so
  \<^verbatim>\<open>cpu->PC + signed_offset\<close> stored into a \<^verbatim>\<open>Word\<close> is the program counter plus the
  sign-extended operand, modulo \<open>2 ^ 16\<close>.
\<close>

definition branch :: "Byte \<Rightarrow> CPU \<Rightarrow> bus \<Rightarrow> Byte \<Rightarrow> Byte \<Rightarrow> Byte \<times> CPU \<times> bus" where
  "branch cycles cpu b flag carry_val =
     (let (operand, cpu, b) = fetch_program_byte cpu b;
          signed_offset = operand;
          opc_cycles = (2 :: Byte);
          (opc_cycles, cpu) =
            (if flag = carry_val then
               let new_PC = PC cpu + scast signed_offset;
                   opc_cycles = opc_cycles + 1;
                   extra_cycle = (of_bool (PC cpu AND 0xFF00 \<noteq> new_PC AND 0xFF00) :: Byte);
                   opc_cycles = opc_cycles + extra_cycle;
                   cpu = cpu\<lparr>PC := new_PC\<rparr>
               in (opc_cycles, cpu)
             else (opc_cycles, cpu));
          cycles = cycles - opc_cycles
      in (cycles, cpu, b))"

definition set_NZ_flags :: "CPU \<Rightarrow> CPU" where
  "set_NZ_flags cpu =
     (let cpu = cpu_set_flag Z (of_bool (A (regs cpu) = 0)) cpu;
          cpu = cpu_set_flag N (drop_bit 7 (A (regs cpu)) AND 1) cpu
      in cpu)"

definition read_bit :: "Byte \<Rightarrow> Byte \<Rightarrow> Byte" where
  "read_bit val position = drop_bit (unat position) val AND 0x01"

section \<open>Opcodes\<close>

text \<open>The constants of the \<^verbatim>\<open>opcodes.h\<close> that the current \<^verbatim>\<open>cpu.c\<close> dispatches on.\<close>

definition OPC_ADC_IM :: Byte where "OPC_ADC_IM = 0x69"

definition OPC_AND_IM :: Byte where "OPC_AND_IM = 0x29"
definition OPC_AND_ZP :: Byte where "OPC_AND_ZP = 0x25"
definition OPC_AND_ZPX :: Byte where "OPC_AND_ZPX = 0x35"
definition OPC_AND_ABS :: Byte where "OPC_AND_ABS = 0x2D"
definition OPC_AND_ABSX :: Byte where "OPC_AND_ABSX = 0x3D"
definition OPC_AND_ABSY :: Byte where "OPC_AND_ABSY = 0x39"
definition OPC_AND_INDX :: Byte where "OPC_AND_INDX = 0x21"
definition OPC_AND_INDY :: Byte where "OPC_AND_INDY = 0x31"

definition OPC_ASL_ACC :: Byte where "OPC_ASL_ACC = 0x0A"
definition OPC_ASL_ZP :: Byte where "OPC_ASL_ZP = 0x1A"
definition OPC_ASL_ZPX :: Byte where "OPC_ASL_ZPX = 0x16"
definition OPC_ASL_ABS :: Byte where "OPC_ASL_ABS = 0x0E"
definition OPC_ASL_ABSX :: Byte where "OPC_ASL_ABSX = 0x1E"

definition OPC_LDA_IM :: Byte where "OPC_LDA_IM = 0xA9"
definition OPC_LDA_ZP :: Byte where "OPC_LDA_ZP = 0xA5"
definition OPC_LDA_ZPX :: Byte where "OPC_LDA_ZPX = 0xB5"
definition OPC_LDA_ABS :: Byte where "OPC_LDA_ABS = 0xAD"
definition OPC_LDA_ABSX :: Byte where "OPC_LDA_ABSX = 0xBD"
definition OPC_LDA_ABSY :: Byte where "OPC_LDA_ABSY = 0xB9"
definition OPC_LDA_INDX :: Byte where "OPC_LDA_INDX = 0xA1"
definition OPC_LDA_INDY :: Byte where "OPC_LDA_INDY = 0xB1"

definition OPC_STA_ZP :: Byte where "OPC_STA_ZP = 0x85"
definition OPC_STA_ZPX :: Byte where "OPC_STA_ZPX = 0x95"
definition OPC_STA_ABS :: Byte where "OPC_STA_ABS = 0x8D"
definition OPC_STA_ABSX :: Byte where "OPC_STA_ABSX = 0x9D"
definition OPC_STA_ABSY :: Byte where "OPC_STA_ABSY = 0x99"
definition OPC_STA_INDX :: Byte where "OPC_STA_INDX = 0x81"
definition OPC_STA_INDY :: Byte where "OPC_STA_INDY = 0x91"

definition OPC_BCC_REL :: Byte where "OPC_BCC_REL = 0x90"
definition OPC_BCS_REL :: Byte where "OPC_BCS_REL = 0xB0"
definition OPC_BEQ_REL :: Byte where "OPC_BEQ_REL = 0xF0"
definition OPC_BMI_REL :: Byte where "OPC_BMI_REL = 0x30"
definition OPC_BNE_REL :: Byte where "OPC_BNE_REL = 0xD0"
definition OPC_BPL_REL :: Byte where "OPC_BPL_REL = 0x10"
definition OPC_BVC_REL :: Byte where "OPC_BVC_REL = 0x50"
definition OPC_BVS_REL :: Byte where "OPC_BVS_REL = 0x70"

definition OPC_BIT_ZP :: Byte where "OPC_BIT_ZP = 0x24"
definition OPC_BIT_ABS :: Byte where "OPC_BIT_ABS = 0x2C"

definition OPC_BRK_IMP :: Byte where "OPC_BRK_IMP = 0x00"

section \<open>The cases of the switch in \<^verbatim>\<open>cpu_execute\<close>\<close>

text \<open>
  Each case takes the cycle counter, the CPU and the bus state as they are when control
  reaches its label, and returns them as they are when control leaves the switch.
  A \<^verbatim>\<open>Byte\<close> operand used as an address, with or without \<^verbatim>\<open>& 0xFF\<close>, is its zero
  extension; \<^verbatim>\<open>(wrapped + 1) & 0xFF\<close> is the 8-bit successor. Every \<^verbatim>\<open>bus_read\<close> and
  \<^verbatim>\<open>bus_write\<close> of the source is one call here, in the source's order.
\<close>

subsection \<open>LDA\<close>

definition case_LDA_IM :: "Byte \<Rightarrow> CPU \<Rightarrow> bus \<Rightarrow> Byte \<times> CPU \<times> bus" where
  "case_LDA_IM cycles cpu b =
     (let (operand, cpu, b) = fetch_program_byte cpu b;
          cpu = cpu\<lparr>regs := (regs cpu)\<lparr>A := operand\<rparr>\<rparr>;
          cpu = set_NZ_flags cpu;
          cycles = cycles - 2
      in (cycles, cpu, b))"

definition case_LDA_ZP :: "Byte \<Rightarrow> CPU \<Rightarrow> bus \<Rightarrow> Byte \<times> CPU \<times> bus" where
  "case_LDA_ZP cycles cpu b =
     (let (operand, cpu, b) = fetch_program_byte cpu b;
          (zero_page_value, b) = bus_read (ucast (operand AND 0xFF)) b;
          cpu = cpu\<lparr>regs := (regs cpu)\<lparr>A := zero_page_value\<rparr>\<rparr>;
          cpu = set_NZ_flags cpu;
          cycles = cycles - 3
      in (cycles, cpu, b))"

definition case_LDA_ZPX :: "Byte \<Rightarrow> CPU \<Rightarrow> bus \<Rightarrow> Byte \<times> CPU \<times> bus" where
  "case_LDA_ZPX cycles cpu b =
     (let (operand, cpu, b) = fetch_program_byte cpu b;
          addr = operand + X (regs cpu);
          (data, b) = bus_read (ucast (addr AND 0xFF)) b;
          cpu = cpu\<lparr>regs := (regs cpu)\<lparr>A := data\<rparr>\<rparr>;
          cpu = set_NZ_flags cpu;
          cycles = cycles - 4
      in (cycles, cpu, b))"

definition case_LDA_ABS :: "Byte \<Rightarrow> CPU \<Rightarrow> bus \<Rightarrow> Byte \<times> CPU \<times> bus" where
  "case_LDA_ABS cycles cpu b =
     (let (operand, cpu, b) = fetch_program_word cpu b;
          (data, b) = bus_read operand b;
          cpu = cpu\<lparr>regs := (regs cpu)\<lparr>A := data\<rparr>\<rparr>;
          cpu = set_NZ_flags cpu;
          cycles = cycles - 4
      in (cycles, cpu, b))"

definition case_LDA_ABSX :: "Byte \<Rightarrow> CPU \<Rightarrow> bus \<Rightarrow> Byte \<times> CPU \<times> bus" where
  "case_LDA_ABSX cycles cpu b =
     (let (cycles, cpu, b) = indexed_LDA_ABS cycles cpu b (X (regs cpu));
          cpu = set_NZ_flags cpu
      in (cycles, cpu, b))"

definition case_LDA_ABSY :: "Byte \<Rightarrow> CPU \<Rightarrow> bus \<Rightarrow> Byte \<times> CPU \<times> bus" where
  "case_LDA_ABSY cycles cpu b =
     (let (cycles, cpu, b) = indexed_LDA_ABS cycles cpu b (Y (regs cpu));
          cpu = set_NZ_flags cpu
      in (cycles, cpu, b))"

definition case_LDA_INDX :: "Byte \<Rightarrow> CPU \<Rightarrow> bus \<Rightarrow> Byte \<times> CPU \<times> bus" where
  "case_LDA_INDX cycles cpu b =
     (let (operand, cpu, b) = fetch_program_byte cpu b;
          wrapped = (operand + X (regs cpu)) AND 0xFF;
          (lo, b) = bus_read (ucast (wrapped AND 0xFF)) b;
          (hi, b) = bus_read (ucast ((wrapped + 1) AND 0xFF)) b;
          addr = (ucast lo OR push_bit 8 (ucast hi) :: Word);
          (data, b) = bus_read addr b;
          cpu = cpu\<lparr>regs := (regs cpu)\<lparr>A := data\<rparr>\<rparr>;
          cpu = set_NZ_flags cpu;
          cycles = cycles - 5
      in (cycles, cpu, b))"

definition case_LDA_INDY :: "Byte \<Rightarrow> CPU \<Rightarrow> bus \<Rightarrow> Byte \<times> CPU \<times> bus" where
  "case_LDA_INDY cycles cpu b =
     (let (operand, cpu, b) = fetch_program_byte cpu b;
          (lo, b) = bus_read (ucast operand) b;
          (hi, b) = bus_read (ucast ((operand + 1) AND 0xFF)) b;
          base = (ucast lo OR push_bit 8 (ucast hi) :: Word);
          addr = base + ucast (Y (regs cpu));
          extra_cycle = (of_bool (addr AND 0xFF00 \<noteq> base AND 0xFF00) :: Byte);
          (data, b) = bus_read addr b;
          cpu = cpu\<lparr>regs := (regs cpu)\<lparr>A := data\<rparr>\<rparr>;
          cpu = set_NZ_flags cpu;
          cycles = cycles - (5 + extra_cycle)
      in (cycles, cpu, b))"

subsection \<open>STA\<close>

definition case_STA_ZP :: "Byte \<Rightarrow> CPU \<Rightarrow> bus \<Rightarrow> Byte \<times> CPU \<times> bus" where
  "case_STA_ZP cycles cpu b =
     (let (operand, cpu, b) = fetch_program_byte cpu b;
          b = bus_write (ucast operand) (A (regs cpu)) b;
          cycles = cycles - 3
      in (cycles, cpu, b))"

definition case_STA_ZPX :: "Byte \<Rightarrow> CPU \<Rightarrow> bus \<Rightarrow> Byte \<times> CPU \<times> bus" where
  "case_STA_ZPX cycles cpu b =
     (let (operand, cpu, b) = fetch_program_byte cpu b;
          addr = (operand + X (regs cpu)) AND 0xFF;
          b = bus_write (ucast addr) (A (regs cpu)) b;
          cycles = cycles - 4
      in (cycles, cpu, b))"

definition case_STA_ABS :: "Byte \<Rightarrow> CPU \<Rightarrow> bus \<Rightarrow> Byte \<times> CPU \<times> bus" where
  "case_STA_ABS cycles cpu b =
     (let (operand, cpu, b) = fetch_program_word cpu b;
          b = bus_write operand (A (regs cpu)) b;
          cycles = cycles - 4
      in (cycles, cpu, b))"

definition case_STA_ABSX :: "Byte \<Rightarrow> CPU \<Rightarrow> bus \<Rightarrow> Byte \<times> CPU \<times> bus" where
  "case_STA_ABSX cycles cpu b =
     (let (cpu, b) = indexed_STA_ABS cpu b (X (regs cpu));
          cycles = cycles - 5
      in (cycles, cpu, b))"

definition case_STA_ABSY :: "Byte \<Rightarrow> CPU \<Rightarrow> bus \<Rightarrow> Byte \<times> CPU \<times> bus" where
  "case_STA_ABSY cycles cpu b =
     (let (cpu, b) = indexed_STA_ABS cpu b (Y (regs cpu));
          cycles = cycles - 5
      in (cycles, cpu, b))"

definition case_STA_INDX :: "Byte \<Rightarrow> CPU \<Rightarrow> bus \<Rightarrow> Byte \<times> CPU \<times> bus" where
  "case_STA_INDX cycles cpu b =
     (let (operand, cpu, b) = fetch_program_byte cpu b;
          wrapped = (operand + X (regs cpu)) AND 0xFF;
          (lo, b) = bus_read (ucast (wrapped AND 0xFF)) b;
          (hi, b) = bus_read (ucast ((wrapped + 1) AND 0xFF)) b;
          addr = (ucast lo OR push_bit 8 (ucast hi) :: Word);
          b = bus_write addr (A (regs cpu)) b;
          cycles = cycles - 6
      in (cycles, cpu, b))"

definition case_STA_INDY :: "Byte \<Rightarrow> CPU \<Rightarrow> bus \<Rightarrow> Byte \<times> CPU \<times> bus" where
  "case_STA_INDY cycles cpu b =
     (let (operand, cpu, b) = fetch_program_byte cpu b;
          (lo, b) = bus_read (ucast (operand AND 0xFF)) b;
          (hi, b) = bus_read (ucast ((operand + 1) AND 0xFF)) b;
          base = (ucast lo OR push_bit 8 (ucast hi) :: Word);
          addr = base + ucast (Y (regs cpu));
          b = bus_write addr (A (regs cpu)) b;
          cycles = cycles - 6
      in (cycles, cpu, b))"

subsection \<open>ADC\<close>

text \<open>
  \<^verbatim>\<open>Word result = A + operand + C\<close> is at most \<open>0x1FF\<close>, so the 16-bit sum is exact.
  \<^verbatim>\<open>set_NZ_flags\<close> is called before the accumulator is assigned, as in the source.
\<close>

definition case_ADC_IM :: "Byte \<Rightarrow> CPU \<Rightarrow> bus \<Rightarrow> Byte \<times> CPU \<times> bus" where
  "case_ADC_IM cycles cpu b =
     (let (operand, cpu, b) = fetch_program_byte cpu b;
          result = (ucast (A (regs cpu)) + ucast operand + ucast (cpu_read_flag C cpu) :: Word);
          cpu = set_NZ_flags cpu;
          cpu = cpu_set_flag C (of_bool (result > 0xFF)) cpu;
          cpu = cpu_set_flag V
                  (of_bool ((ucast (A (regs cpu)) XOR result) AND (ucast operand XOR result)
                              AND 0x80 \<noteq> 0)) cpu;
          cpu = cpu\<lparr>regs := (regs cpu)\<lparr>A := ucast (result AND 0xFF)\<rparr>\<rparr>;
          cycles = cycles - 2
      in (cycles, cpu, b))"

subsection \<open>AND\<close>

definition case_AND_IM :: "Byte \<Rightarrow> CPU \<Rightarrow> bus \<Rightarrow> Byte \<times> CPU \<times> bus" where
  "case_AND_IM cycles cpu b =
     (let (operand, cpu, b) = fetch_program_byte cpu b;
          cpu = cpu\<lparr>regs := (regs cpu)\<lparr>A := A (regs cpu) AND operand\<rparr>\<rparr>;
          cpu = set_NZ_flags cpu;
          cycles = cycles - 2
      in (cycles, cpu, b))"

definition case_AND_ZP :: "Byte \<Rightarrow> CPU \<Rightarrow> bus \<Rightarrow> Byte \<times> CPU \<times> bus" where
  "case_AND_ZP cycles cpu b =
     (let (operand, cpu, b) = fetch_program_byte cpu b;
          (zero_page_value, b) = bus_read (ucast (operand AND 0xFF)) b;
          cpu = cpu\<lparr>regs := (regs cpu)\<lparr>A := A (regs cpu) AND zero_page_value\<rparr>\<rparr>;
          cpu = set_NZ_flags cpu;
          cycles = cycles - 3
      in (cycles, cpu, b))"

definition case_AND_ZPX :: "Byte \<Rightarrow> CPU \<Rightarrow> bus \<Rightarrow> Byte \<times> CPU \<times> bus" where
  "case_AND_ZPX cycles cpu b =
     (let (operand, cpu, b) = fetch_program_byte cpu b;
          zero_page_addr = operand + X (regs cpu);
          (zero_page_value, b) = bus_read (ucast (zero_page_addr AND 0xFF)) b;
          cpu = cpu\<lparr>regs := (regs cpu)\<lparr>A := A (regs cpu) AND zero_page_value\<rparr>\<rparr>;
          cpu = set_NZ_flags cpu;
          cycles = cycles - 4
      in (cycles, cpu, b))"

definition case_AND_ABS :: "Byte \<Rightarrow> CPU \<Rightarrow> bus \<Rightarrow> Byte \<times> CPU \<times> bus" where
  "case_AND_ABS cycles cpu b =
     (let (operand, cpu, b) = fetch_program_word cpu b;
          (data, b) = bus_read operand b;
          cpu = cpu\<lparr>regs := (regs cpu)\<lparr>A := A (regs cpu) AND data\<rparr>\<rparr>;
          cpu = set_NZ_flags cpu;
          cycles = cycles - 4
      in (cycles, cpu, b))"

definition case_AND_ABSX :: "Byte \<Rightarrow> CPU \<Rightarrow> bus \<Rightarrow> Byte \<times> CPU \<times> bus" where
  "case_AND_ABSX cycles cpu b =
     (let (cycles, cpu, b) = indexed_AND_ABS cycles cpu b (X (regs cpu));
          cpu = set_NZ_flags cpu
      in (cycles, cpu, b))"

definition case_AND_ABSY :: "Byte \<Rightarrow> CPU \<Rightarrow> bus \<Rightarrow> Byte \<times> CPU \<times> bus" where
  "case_AND_ABSY cycles cpu b =
     (let (cycles, cpu, b) = indexed_AND_ABS cycles cpu b (Y (regs cpu));
          cpu = set_NZ_flags cpu
      in (cycles, cpu, b))"

definition case_AND_INDX :: "Byte \<Rightarrow> CPU \<Rightarrow> bus \<Rightarrow> Byte \<times> CPU \<times> bus" where
  "case_AND_INDX cycles cpu b =
     (let (operand, cpu, b) = fetch_program_byte cpu b;
          wrapped = (operand + X (regs cpu)) AND 0xFF;
          (lo, b) = bus_read (ucast (wrapped AND 0xFF)) b;
          (hi, b) = bus_read (ucast ((wrapped + 1) AND 0xFF)) b;
          addr = (ucast lo OR push_bit 8 (ucast hi) :: Word);
          (data, b) = bus_read addr b;
          cpu = cpu\<lparr>regs := (regs cpu)\<lparr>A := A (regs cpu) AND data\<rparr>\<rparr>;
          cpu = set_NZ_flags cpu;
          cycles = cycles - 6
      in (cycles, cpu, b))"

definition case_AND_INDY :: "Byte \<Rightarrow> CPU \<Rightarrow> bus \<Rightarrow> Byte \<times> CPU \<times> bus" where
  "case_AND_INDY cycles cpu b =
     (let (operand, cpu, b) = fetch_program_byte cpu b;
          (lo, b) = bus_read (ucast operand) b;
          (hi, b) = bus_read (ucast ((operand + 1) AND 0xFF)) b;
          base = (ucast lo OR push_bit 8 (ucast hi) :: Word);
          addr = base + ucast (Y (regs cpu));
          extra_cycle = (of_bool (addr AND 0xFF00 \<noteq> base AND 0xFF00) :: Byte);
          (data, b) = bus_read addr b;
          cpu = cpu\<lparr>regs := (regs cpu)\<lparr>A := A (regs cpu) AND data\<rparr>\<rparr>;
          cpu = set_NZ_flags cpu;
          cycles = cycles - (5 + extra_cycle)
      in (cycles, cpu, b))"

subsection \<open>ASL\<close>

text \<open>
  \<^verbatim>\<open>Word shifted_value = value << 1\<close> is at most \<open>0x1FE\<close>, so the 16-bit shift is exact.
  Both zero-page cases read and write at \<^verbatim>\<open>operand\<close>; \<^verbatim>\<open>OPC_ASL_ZPX\<close> computes
  \<^verbatim>\<open>addr\<close> and does not use it.
\<close>

definition case_ASL_ACC :: "Byte \<Rightarrow> CPU \<Rightarrow> bus \<Rightarrow> Byte \<times> CPU \<times> bus" where
  "case_ASL_ACC cycles cpu b =
     (let shifted_value = (push_bit 1 (ucast (A (regs cpu))) :: Word);
          cpu = cpu\<lparr>regs := (regs cpu)\<lparr>A := ucast (shifted_value AND 0xFF)\<rparr>\<rparr>;
          cpu = set_NZ_flags cpu;
          cpu = cpu_set_flag C (of_bool (shifted_value > 0xFF)) cpu;
          cycles = cycles - 2
      in (cycles, cpu, b))"

definition case_ASL_ZP :: "Byte \<Rightarrow> CPU \<Rightarrow> bus \<Rightarrow> Byte \<times> CPU \<times> bus" where
  "case_ASL_ZP cycles cpu b =
     (let (operand, cpu, b) = fetch_program_byte cpu b;
          (zero_page_value, b) = bus_read (ucast (operand AND 0xFF)) b;
          shifted_value = (push_bit 1 (ucast zero_page_value) :: Word);
          b = bus_write (ucast operand) (ucast (shifted_value AND 0xFF)) b;
          cpu = cpu_set_flag Z (of_bool (shifted_value = 0)) cpu;
          cpu = cpu_set_flag N (ucast (drop_bit 7 (shifted_value AND 0xFF) AND 1)) cpu;
          cpu = cpu_set_flag C (of_bool (shifted_value > 0xFF)) cpu;
          cycles = cycles - 5
      in (cycles, cpu, b))"

definition case_ASL_ZPX :: "Byte \<Rightarrow> CPU \<Rightarrow> bus \<Rightarrow> Byte \<times> CPU \<times> bus" where
  "case_ASL_ZPX cycles cpu b =
     (let (operand, cpu, b) = fetch_program_byte cpu b;
          addr = operand + X (regs cpu);
          (zero_page_value, b) = bus_read (ucast (operand AND 0xFF)) b;
          shifted_value = (push_bit 1 (ucast zero_page_value) :: Word);
          b = bus_write (ucast operand) (ucast (shifted_value AND 0xFF)) b;
          cpu = cpu_set_flag Z (of_bool (shifted_value = 0)) cpu;
          cpu = cpu_set_flag N (ucast (drop_bit 7 (shifted_value AND 0xFF) AND 1)) cpu;
          cpu = cpu_set_flag C (of_bool (shifted_value > 0xFF)) cpu;
          cycles = cycles - 6
      in (cycles, cpu, b))"

definition case_ASL_ABS :: "Byte \<Rightarrow> CPU \<Rightarrow> bus \<Rightarrow> Byte \<times> CPU \<times> bus" where
  "case_ASL_ABS cycles cpu b =
     (let (operand, cpu, b) = fetch_program_word cpu b;
          (abs_value, b) = bus_read operand b;
          shifted_value = (push_bit 1 (ucast abs_value) :: Word);
          b = bus_write operand (ucast (shifted_value AND 0xFF)) b;
          cpu = cpu_set_flag Z (of_bool (shifted_value = 0)) cpu;
          cpu = cpu_set_flag N (ucast (drop_bit 7 (shifted_value AND 0xFF) AND 1)) cpu;
          cpu = cpu_set_flag C (of_bool (shifted_value > 0xFF)) cpu;
          cycles = cycles - 6
      in (cycles, cpu, b))"

definition case_ASL_ABSX :: "Byte \<Rightarrow> CPU \<Rightarrow> bus \<Rightarrow> Byte \<times> CPU \<times> bus" where
  "case_ASL_ABSX cycles cpu b =
     (let (operand, cpu, b) = fetch_program_word cpu b;
          addr = operand + ucast (X (regs cpu));
          (abs_value, b) = bus_read addr b;
          shifted_value = (push_bit 1 (ucast abs_value) :: Word);
          b = bus_write addr (ucast (shifted_value AND 0xFF)) b;
          cpu = cpu_set_flag Z (of_bool (shifted_value = 0)) cpu;
          cpu = cpu_set_flag N (ucast (drop_bit 7 (shifted_value AND 0xFF) AND 1)) cpu;
          cpu = cpu_set_flag C (of_bool (shifted_value > 0xFF)) cpu;
          cycles = cycles - 7
      in (cycles, cpu, b))"

subsection \<open>BIT\<close>

definition case_BIT_ZP :: "Byte \<Rightarrow> CPU \<Rightarrow> bus \<Rightarrow> Byte \<times> CPU \<times> bus" where
  "case_BIT_ZP cycles cpu b =
     (let (operand, cpu, b) = fetch_program_byte cpu b;
          (zero_page_value, b) = bus_read (ucast (operand AND 0xFF)) b;
          cpu = cpu_set_flag Z (of_bool (A (regs cpu) AND zero_page_value = 0)) cpu;
          N_val = read_bit zero_page_value 7;
          cpu = cpu_set_flag N N_val cpu;
          V_val = read_bit zero_page_value 6;
          cpu = cpu_set_flag V V_val cpu;
          cycles = cycles - 3
      in (cycles, cpu, b))"

definition case_BIT_ABS :: "Byte \<Rightarrow> CPU \<Rightarrow> bus \<Rightarrow> Byte \<times> CPU \<times> bus" where
  "case_BIT_ABS cycles cpu b =
     (let (operand, cpu, b) = fetch_program_word cpu b;
          (abs_value, b) = bus_read operand b;
          cpu = cpu_set_flag Z (of_bool (A (regs cpu) AND abs_value = 0)) cpu;
          N_val = read_bit abs_value 7;
          cpu = cpu_set_flag N N_val cpu;
          V_val = read_bit abs_value 6;
          cpu = cpu_set_flag V V_val cpu;
          cycles = cycles - 4
      in (cycles, cpu, b))"

subsection \<open>Branches\<close>

text \<open>
  \<^verbatim>\<open>OPC_BCC_REL\<close> and \<^verbatim>\<open>OPC_BCS_REL\<close> end in \<^verbatim>\<open>break\<close>. The six cases from
  \<^verbatim>\<open>OPC_BNE_REL\<close> to \<^verbatim>\<open>OPC_BVS_REL\<close> have none, so control runs on into the next label
  of the source, down to the \<^verbatim>\<open>break\<close> of \<^verbatim>\<open>OPC_BIT_ZP\<close>. They are defined last label
  first, each continuing with the label that follows it in the source.
\<close>

definition case_BCC_REL :: "Byte \<Rightarrow> CPU \<Rightarrow> bus \<Rightarrow> Byte \<times> CPU \<times> bus" where
  "case_BCC_REL cycles cpu b =
     (let (cycles, cpu, b) = branch cycles cpu b (cpu_read_flag C cpu) 0
      in (cycles, cpu, b))"

definition case_BCS_REL :: "Byte \<Rightarrow> CPU \<Rightarrow> bus \<Rightarrow> Byte \<times> CPU \<times> bus" where
  "case_BCS_REL cycles cpu b =
     (let (cycles, cpu, b) = branch cycles cpu b (cpu_read_flag C cpu) 1
      in (cycles, cpu, b))"

definition case_BVS_REL :: "Byte \<Rightarrow> CPU \<Rightarrow> bus \<Rightarrow> Byte \<times> CPU \<times> bus" where
  "case_BVS_REL cycles cpu b =
     (let (cycles, cpu, b) = branch cycles cpu b (cpu_read_flag V cpu) 1
      in case_BIT_ZP cycles cpu b)"

definition case_BVC_REL :: "Byte \<Rightarrow> CPU \<Rightarrow> bus \<Rightarrow> Byte \<times> CPU \<times> bus" where
  "case_BVC_REL cycles cpu b =
     (let (cycles, cpu, b) = branch cycles cpu b (cpu_read_flag V cpu) 0
      in case_BVS_REL cycles cpu b)"

definition case_BMI_REL :: "Byte \<Rightarrow> CPU \<Rightarrow> bus \<Rightarrow> Byte \<times> CPU \<times> bus" where
  "case_BMI_REL cycles cpu b =
     (let (cycles, cpu, b) = branch cycles cpu b (cpu_read_flag N cpu) 1
      in case_BVC_REL cycles cpu b)"

definition case_BPL_REL :: "Byte \<Rightarrow> CPU \<Rightarrow> bus \<Rightarrow> Byte \<times> CPU \<times> bus" where
  "case_BPL_REL cycles cpu b =
     (let (cycles, cpu, b) = branch cycles cpu b (cpu_read_flag N cpu) 0
      in case_BMI_REL cycles cpu b)"

definition case_BEQ_REL :: "Byte \<Rightarrow> CPU \<Rightarrow> bus \<Rightarrow> Byte \<times> CPU \<times> bus" where
  "case_BEQ_REL cycles cpu b =
     (let (cycles, cpu, b) = branch cycles cpu b (cpu_read_flag Z cpu) 1
      in case_BPL_REL cycles cpu b)"

definition case_BNE_REL :: "Byte \<Rightarrow> CPU \<Rightarrow> bus \<Rightarrow> Byte \<times> CPU \<times> bus" where
  "case_BNE_REL cycles cpu b =
     (let (cycles, cpu, b) = branch cycles cpu b (cpu_read_flag Z cpu) 0
      in case_BEQ_REL cycles cpu b)"

subsection \<open>BRK\<close>

definition case_BRK_IMP :: "Byte \<Rightarrow> CPU \<Rightarrow> bus \<Rightarrow> Byte \<times> CPU \<times> bus" where
  "case_BRK_IMP cycles cpu b =
     (let stack_PC = PC cpu + 2;
          stack_PC_lo = (ucast (stack_PC AND 0xFF) :: Byte);
          stack_PC_hi = (ucast (drop_bit 8 stack_PC AND 0xFF) :: Byte);
          (cpu, b) = stack_push stack_PC_hi cpu b;
          (cpu, b) = stack_push stack_PC_lo cpu b;
          cpu = cpu_set_flag I 1 cpu;
          cpu = cpu_set_flag B 1 cpu;
          (cpu, b) = stack_push (flags cpu) cpu b;
          cpu = cpu_set_flag B 0 cpu;
          (lo, b) = bus_read 0xFFFE b;
          (hi, b) = bus_read 0xFFFF b;
          addr = (ucast lo OR push_bit 8 (ucast hi) :: Word);
          cpu = cpu\<lparr>PC := addr\<rparr>;
          cycles = cycles - 7
      in (cycles, cpu, b))"

section \<open>The dispatch loop\<close>

text \<open>The \<^verbatim>\<open>switch (opcode)\<close>: the matching label, or \<^verbatim>\<open>default\<close> with \<^verbatim>\<open>cycles--\<close>.\<close>

definition cpu_switch :: "Byte \<Rightarrow> Byte \<Rightarrow> CPU \<Rightarrow> bus \<Rightarrow> Byte \<times> CPU \<times> bus" where
  "cpu_switch opcode cycles cpu b =
     (if opcode = OPC_LDA_IM then case_LDA_IM cycles cpu b
      else if opcode = OPC_LDA_ZP then case_LDA_ZP cycles cpu b
      else if opcode = OPC_LDA_ZPX then case_LDA_ZPX cycles cpu b
      else if opcode = OPC_LDA_ABS then case_LDA_ABS cycles cpu b
      else if opcode = OPC_LDA_ABSX then case_LDA_ABSX cycles cpu b
      else if opcode = OPC_LDA_ABSY then case_LDA_ABSY cycles cpu b
      else if opcode = OPC_LDA_INDX then case_LDA_INDX cycles cpu b
      else if opcode = OPC_LDA_INDY then case_LDA_INDY cycles cpu b
      else if opcode = OPC_STA_ZP then case_STA_ZP cycles cpu b
      else if opcode = OPC_STA_ZPX then case_STA_ZPX cycles cpu b
      else if opcode = OPC_STA_ABS then case_STA_ABS cycles cpu b
      else if opcode = OPC_STA_ABSX then case_STA_ABSX cycles cpu b
      else if opcode = OPC_STA_ABSY then case_STA_ABSY cycles cpu b
      else if opcode = OPC_STA_INDX then case_STA_INDX cycles cpu b
      else if opcode = OPC_STA_INDY then case_STA_INDY cycles cpu b
      else if opcode = OPC_ADC_IM then case_ADC_IM cycles cpu b
      else if opcode = OPC_AND_IM then case_AND_IM cycles cpu b
      else if opcode = OPC_AND_ZP then case_AND_ZP cycles cpu b
      else if opcode = OPC_AND_ZPX then case_AND_ZPX cycles cpu b
      else if opcode = OPC_AND_ABS then case_AND_ABS cycles cpu b
      else if opcode = OPC_AND_ABSX then case_AND_ABSX cycles cpu b
      else if opcode = OPC_AND_ABSY then case_AND_ABSY cycles cpu b
      else if opcode = OPC_AND_INDX then case_AND_INDX cycles cpu b
      else if opcode = OPC_AND_INDY then case_AND_INDY cycles cpu b
      else if opcode = OPC_ASL_ACC then case_ASL_ACC cycles cpu b
      else if opcode = OPC_ASL_ZP then case_ASL_ZP cycles cpu b
      else if opcode = OPC_ASL_ZPX then case_ASL_ZPX cycles cpu b
      else if opcode = OPC_ASL_ABS then case_ASL_ABS cycles cpu b
      else if opcode = OPC_ASL_ABSX then case_ASL_ABSX cycles cpu b
      else if opcode = OPC_BCC_REL then case_BCC_REL cycles cpu b
      else if opcode = OPC_BCS_REL then case_BCS_REL cycles cpu b
      else if opcode = OPC_BNE_REL then case_BNE_REL cycles cpu b
      else if opcode = OPC_BEQ_REL then case_BEQ_REL cycles cpu b
      else if opcode = OPC_BPL_REL then case_BPL_REL cycles cpu b
      else if opcode = OPC_BMI_REL then case_BMI_REL cycles cpu b
      else if opcode = OPC_BVC_REL then case_BVC_REL cycles cpu b
      else if opcode = OPC_BVS_REL then case_BVS_REL cycles cpu b
      else if opcode = OPC_BIT_ZP then case_BIT_ZP cycles cpu b
      else if opcode = OPC_BIT_ABS then case_BIT_ABS cycles cpu b
      else if opcode = OPC_BRK_IMP then case_BRK_IMP cycles cpu b
      else (cycles - 1, cpu, b))"

text \<open>One iteration of the \<^verbatim>\<open>while\<close> loop: fetch the opcode, run the switch.\<close>

definition cpu_execute_body :: "Byte \<Rightarrow> CPU \<Rightarrow> bus \<Rightarrow> Byte \<times> CPU \<times> bus" where
  "cpu_execute_body cycles cpu b =
     (let (opcode, cpu, b) = fetch_program_byte cpu b
      in cpu_switch opcode cycles cpu b)"

text \<open>
  \<^verbatim>\<open>while (cycles > 0)\<close> on the unsigned 8-bit counter. The loop need not end, so
  \<open>cpu_execute\<close> is a partial function: \<open>None\<close> is a run that never returns, \<open>Some\<close>
  carries the CPU and the bus state at the return.
\<close>

partial_function (option) cpu_execute :: "Byte \<Rightarrow> CPU \<Rightarrow> bus \<Rightarrow> (CPU \<times> bus) option" where
  "cpu_execute cycles cpu b =
     (if cycles > 0 then
        (case cpu_execute_body cycles cpu b of
           (cycles', cpu', b') \<Rightarrow> cpu_execute cycles' cpu' b')
      else Some (cpu, b))"

section \<open>Concrete machine states\<close>

text \<open>
  The states below are set up the way the repository's test harness does it:
  \<^verbatim>\<open>test_reset\<close> resets the CPU and assigns \<^verbatim>\<open>PC\<close>, the test assigns registers and
  flags and writes its program through \<^verbatim>\<open>bus_write\<close>.
\<close>

text \<open>The bus state at program start: static storage is zero, no bus call has been made.\<close>

definition boot_bus :: bus where
  "boot_bus = \<lparr>mem = (\<lambda>addr. 0x00), accesses = []\<rparr>"

text \<open>A two-byte loop: \<^verbatim>\<open>BCC -2\<close> at \<open>0x02FE\<close>, carry clear.\<close>

definition spin_cpu :: CPU where
  "spin_cpu = \<lparr>PC = 0x02FE, SP = 0xFF, regs = \<lparr>A = 0x00, X = 0x00, Y = 0x00\<rparr>, flags = 0x24\<rparr>"

definition spin_bus :: bus where
  "spin_bus = bus_write 0x02FF 0xFE (bus_write 0x02FE OPC_BCC_REL (bus_reset boot_bus))"

text \<open>The harness test "ADC IM - signed overflow: 0x7F + 0x01".\<close>

definition adc_cpu :: CPU where
  "adc_cpu = \<lparr>PC = 0x0200, SP = 0xFF, regs = \<lparr>A = 0x7F, X = 0x00, Y = 0x00\<rparr>, flags = 0x24\<rparr>"

definition adc_bus :: bus where
  "adc_bus = bus_write 0x0201 0x01 (bus_write 0x0200 OPC_ADC_IM (bus_reset boot_bus))"



text \<open>The harness test "BNE - not taken (Z=1)".\<close>

definition bne_cpu :: CPU where
  "bne_cpu = \<lparr>PC = 0x0200, SP = 0xFF, regs = \<lparr>A = 0x00, X = 0x00, Y = 0x00\<rparr>, flags = 0x26\<rparr>"

definition bne_bus :: bus where
  "bne_bus = bus_write 0x0201 0x10 (bus_write 0x0200 OPC_BNE_REL (bus_reset boot_bus))"

text \<open>A CPU before its first reset.\<close>

definition blank_cpu :: CPU where
  "blank_cpu = \<lparr>PC = 0x0000, SP = 0x00, regs = \<lparr>A = 0x00, X = 0x00, Y = 0x00\<rparr>, flags = 0x00\<rparr>"

text \<open>The harness test "ASL ZP,X": \<^verbatim>\<open>X = 0x04\<close>, operand \<open>0x10\<close>, \<open>0x08\<close> stored at \<open>0x14\<close>.\<close>

definition asl_cpu :: CPU where
  "asl_cpu = \<lparr>PC = 0x0200, SP = 0xFF, regs = \<lparr>A = 0x00, X = 0x04, Y = 0x00\<rparr>, flags = 0x24\<rparr>"

definition asl_bus :: bus where
  "asl_bus = bus_write 0x0201 0x10
               (bus_write 0x0200 OPC_ASL_ZPX (bus_write 0x0014 0x08 (bus_reset boot_bus)))"

text \<open>
  \<^verbatim>\<open>STA $10\<close> on a CPU whose status byte is all zero; \<^verbatim>\<open>LDA #$20\<close> after a reset, and
  on a CPU whose status byte is all zero.
\<close>

definition sta_cpu :: CPU where
  "sta_cpu = \<lparr>PC = 0x0200, SP = 0xFF, regs = \<lparr>A = 0x42, X = 0x00, Y = 0x00\<rparr>, flags = 0x00\<rparr>"

definition sta_bus :: bus where
  "sta_bus = bus_write 0x0201 0x10 (bus_write 0x0200 OPC_STA_ZP (bus_reset boot_bus))"

definition lda_cpu :: CPU where
  "lda_cpu = \<lparr>PC = 0x0200, SP = 0xFF, regs = \<lparr>A = 0x00, X = 0x00, Y = 0x00\<rparr>, flags = 0x24\<rparr>"

definition lda_clear_cpu :: CPU where
  "lda_clear_cpu = \<lparr>PC = 0x0200, SP = 0xFF, regs = \<lparr>A = 0x00, X = 0x00, Y = 0x00\<rparr>, flags = 0x00\<rparr>"

definition lda_bus :: bus where
  "lda_bus = bus_write 0x0201 0x20 (bus_write 0x0200 OPC_LDA_IM (bus_reset boot_bus))"

text \<open>\<^verbatim>\<open>LDA $03FF,X\<close> with \<^verbatim>\<open>X = 0x01\<close> and \<open>0x77\<close> stored at \<open>0x0400\<close>.\<close>

definition absx_cpu :: CPU where
  "absx_cpu = \<lparr>PC = 0x0200, SP = 0xFF, regs = \<lparr>A = 0x00, X = 0x01, Y = 0x00\<rparr>, flags = 0x24\<rparr>"

definition absx_bus :: bus where
  "absx_bus = bus_write 0x0400 0x77 (bus_write 0x0202 0x03 (bus_write 0x0201 0xFF
                (bus_write 0x0200 OPC_LDA_ABSX (bus_reset boot_bus))))"

section \<open>Basic facts\<close>

lemmas opcode_defs =
  OPC_ADC_IM_def
  OPC_AND_IM_def OPC_AND_ZP_def OPC_AND_ZPX_def OPC_AND_ABS_def OPC_AND_ABSX_def
  OPC_AND_ABSY_def OPC_AND_INDX_def OPC_AND_INDY_def
  OPC_ASL_ACC_def OPC_ASL_ZP_def OPC_ASL_ZPX_def OPC_ASL_ABS_def OPC_ASL_ABSX_def
  OPC_LDA_IM_def OPC_LDA_ZP_def OPC_LDA_ZPX_def OPC_LDA_ABS_def OPC_LDA_ABSX_def
  OPC_LDA_ABSY_def OPC_LDA_INDX_def OPC_LDA_INDY_def
  OPC_STA_ZP_def OPC_STA_ZPX_def OPC_STA_ABS_def OPC_STA_ABSX_def OPC_STA_ABSY_def
  OPC_STA_INDX_def OPC_STA_INDY_def
  OPC_BCC_REL_def OPC_BCS_REL_def OPC_BEQ_REL_def OPC_BMI_REL_def OPC_BNE_REL_def
  OPC_BPL_REL_def OPC_BVC_REL_def OPC_BVS_REL_def
  OPC_BIT_ZP_def OPC_BIT_ABS_def OPC_BRK_IMP_def

subsection \<open>The bus maps the whole address space\<close>

lemma Word_le_max: "(addr :: Word) \<le> 0xFFFF"
proof -
  have "(0xFFFF :: Word) = - 1" by simp
  then show ?thesis by (simp only: word_n1_ge)
qed

lemma bus_read_eq [simp]:
  "bus_read addr b = (mem b addr, b\<lparr>accesses := accesses b @ [Bus_Read addr]\<rparr>)"
  by (simp add: bus_read_def MEM_START_def MEM_END_def mem_read_def Word_le_max Let_def)

lemma bus_write_eq [simp]:
  "bus_write addr v b =
     b\<lparr>mem := (mem b)(addr := v), accesses := accesses b @ [Bus_Write addr v]\<rparr>"
  by (simp add: bus_write_def MEM_START_def MEM_END_def mem_write_def Word_le_max Let_def)

lemma fetch_program_byte_eq:
  "fetch_program_byte cpu b =
     (mem b (PC cpu), cpu\<lparr>PC := PC cpu + 1\<rparr>,
      b\<lparr>accesses := accesses b @ [Bus_Read (PC cpu)]\<rparr>)"
  by (simp add: fetch_program_byte_def Let_def)

lemma fetch_program_word_eq:
  "fetch_program_word cpu b =
     (ucast (mem b (PC cpu)) OR push_bit 8 (ucast (mem b (PC cpu + 1))),
      cpu\<lparr>PC := PC cpu + 2\<rparr>,
      b\<lparr>accesses := accesses b @ [Bus_Read (PC cpu), Bus_Read (PC cpu + 1)]\<rparr>)"
  by (simp add: fetch_program_word_def fetch_program_byte_eq Let_def)

lemmas exec_defs =
  cpu_execute_body_def cpu_switch_def opcode_defs fetch_program_byte_eq fetch_program_word_eq
  set_NZ_flags_def cpu_set_flag_def cpu_read_flag_def Let_def bus_reset_def mem_reset_def
  boot_bus_def

text \<open>\<^verbatim>\<open>test_reset\<close> of the harness, from any CPU: the reset state with \<^verbatim>\<open>PC = PRG_START\<close>.\<close>

lemma test_reset_state: "(fst (cpu_reset cpu b))\<lparr>PC := 0x0200\<rparr> = lda_cpu"
  by (simp add: cpu_reset_def Let_def lda_cpu_def)

subsection \<open>Stack addresses\<close>

lemma unat_Byte_less: "unat (b :: Byte) < 256"
  using unsigned_less [of b, where ?'a = nat] by simp

lemma unat_ucast_Byte: "unat (ucast (b :: Byte) :: Word) = unat b"
  using unat_Byte_less [of b] by (simp add: unsigned_ucast_eq take_bit_nat_eq_self)

lemma unat_stack_addr: "unat (0x100 + ucast (sp :: Byte) :: Word) = 256 + unat sp"
  using unat_Byte_less [of sp] by (simp add: unat_word_ariths unat_ucast_Byte)

lemma stack_addr_inj: "(0x100 + ucast (a :: Byte) :: Word) = 0x100 + ucast b \<longleftrightarrow> a = b"
proof
  assume "(0x100 + ucast a :: Word) = 0x100 + ucast b"
  then have "unat (0x100 + ucast a :: Word) = unat (0x100 + ucast b :: Word)" by simp
  then have "unat a = unat b" by (simp only: unat_stack_addr)
  then show "a = b" by (simp add: word_unat_eq_iff)
qed simp

lemma stack_addr_range:
  "(0x100 :: Word) \<le> 0x100 + ucast (sp :: Byte) \<and> (0x100 + ucast sp :: Word) \<le> 0x1FF"
  using unat_Byte_less [of sp] by (simp add: word_le_nat_alt unat_stack_addr)

lemma stack_push_eq:
  "stack_push val cpu b =
     (cpu\<lparr>SP := SP cpu - 1\<rparr>,
      b\<lparr>mem := (mem b)(0x100 + ucast (SP cpu) := val),
        accesses := accesses b @ [Bus_Write (0x100 + ucast (SP cpu)) val]\<rparr>)"
  by (simp add: stack_push_def Let_def)

lemma stack_pop_eq:
  "stack_pop cpu b =
     (mem b (0x100 + ucast (SP cpu + 1)), cpu\<lparr>SP := SP cpu + 1\<rparr>,
      b\<lparr>accesses := accesses b @ [Bus_Read (0x100 + ucast (SP cpu + 1))]\<rparr>)"
  by (simp add: stack_pop_def Let_def)

subsection \<open>Bytes of a word\<close>

lemma hi_mask: "(a :: Word) AND 0xFF00 = push_bit 8 (drop_bit 8 a)"
proof -
  have eq: "(0xFF00 :: Word) = push_bit 8 (mask 8)" by (simp add: mask_eq_exp_minus_1)
  show ?thesis unfolding eq
    by (rule bit_word_eqI) (auto simp: bit_simps)
qed

lemma drop_hi_mask: "drop_bit 8 ((a :: Word) AND 0xFF00) = drop_bit 8 a"
proof -
  have eq: "(0xFF00 :: Word) = push_bit 8 (mask 8)" by (simp add: mask_eq_exp_minus_1)
  show ?thesis unfolding eq
    by (rule bit_word_eqI) (auto simp: bit_simps dest: bit_imp_le_length)
qed

text \<open>The source's page test \<^verbatim>\<open>(a & 0xFF00) != (b & 0xFF00)\<close> compares the high bytes.\<close>

lemma page_eq_iff:
  "((a :: Word) AND 0xFF00 = b AND 0xFF00) \<longleftrightarrow> (drop_bit 8 a = drop_bit 8 b)"
proof
  assume "a AND 0xFF00 = b AND 0xFF00"
  then have "drop_bit 8 (a AND 0xFF00) = drop_bit 8 (b AND 0xFF00)" by (simp only:)
  then show "drop_bit 8 a = drop_bit 8 b" by (simp only: drop_hi_mask)
next
  assume "drop_bit 8 a = drop_bit 8 b"
  then show "a AND 0xFF00 = b AND 0xFF00" by (simp only: hi_mask)
qed


subsection \<open>What the helpers leave alone\<close>

lemma regs_cpu_set_flag [simp]: "regs (cpu_set_flag flag val cpu) = regs cpu"
  by (simp add: cpu_set_flag_def Let_def)

lemma regs_set_NZ_flags [simp]: "regs (set_NZ_flags cpu) = regs cpu"
  by (simp add: set_NZ_flags_def Let_def)

lemma SP_cpu_set_flag [simp]: "SP (cpu_set_flag flag val cpu) = SP cpu"
  by (simp add: cpu_set_flag_def Let_def)

lemma PC_cpu_set_flag [simp]: "PC (cpu_set_flag flag val cpu) = PC cpu"
  by (simp add: cpu_set_flag_def Let_def)

lemma flags_fetch_program_byte [simp]:
  "flags (fst (snd (fetch_program_byte cpu b))) = flags cpu"
  by (simp add: fetch_program_byte_eq)

lemma flags_fetch_program_word [simp]:
  "flags (fst (snd (fetch_program_word cpu b))) = flags cpu"
  by (simp add: fetch_program_word_eq)

lemma flags_stack_push [simp]: "flags (fst (stack_push val cpu b)) = flags cpu"
  by (simp add: stack_push_eq)

lemma flags_indexed_LDA_ABS [simp]:
  "flags (fst (snd (indexed_LDA_ABS cycles cpu b index))) = flags cpu"
  by (simp add: indexed_LDA_ABS_def Let_def split_beta)

lemma flags_indexed_AND_ABS [simp]:
  "flags (fst (snd (indexed_AND_ABS cycles cpu b index))) = flags cpu"
  by (simp add: indexed_AND_ABS_def Let_def split_beta)

lemma flags_indexed_STA_ABS [simp]: "flags (fst (indexed_STA_ABS cpu b index)) = flags cpu"
  by (simp add: indexed_STA_ABS_def Let_def split_beta)

lemma flags_branch [simp]:
  "flags (fst (snd (branch cycles cpu b flag carry_val))) = flags cpu"
  by (simp add: branch_def Let_def split_beta)

subsection \<open>The status byte through one iteration\<close>

text \<open>
  \<open>cpu_set_flag\<close> ends by setting bit 5, whatever the flag and the value; nothing in
  \<open>cpu_execute\<close> writes the status byte in any other way (\<open>cpu_toggle_flag\<close> is not called).
  So a case that sets a flag leaves bit 5 set, and a case that sets none leaves the
  status byte as it was.
\<close>

lemma U_cpu_set_flag [simp]: "bit (flags (cpu_set_flag flag val cpu)) 5"
  by (simp add: cpu_set_flag_def Let_def bit_simps)

lemma U_set_NZ_flags [simp]: "bit (flags (set_NZ_flags cpu)) 5"
  by (simp add: set_NZ_flags_def Let_def)

lemma U_forced_LDA:
  shows "bit (flags (fst (snd (case_LDA_IM cycles cpu b)))) 5"
    and "bit (flags (fst (snd (case_LDA_ZP cycles cpu b)))) 5"
    and "bit (flags (fst (snd (case_LDA_ZPX cycles cpu b)))) 5"
    and "bit (flags (fst (snd (case_LDA_ABS cycles cpu b)))) 5"
    and "bit (flags (fst (snd (case_LDA_ABSX cycles cpu b)))) 5"
    and "bit (flags (fst (snd (case_LDA_ABSY cycles cpu b)))) 5"
    and "bit (flags (fst (snd (case_LDA_INDX cycles cpu b)))) 5"
    and "bit (flags (fst (snd (case_LDA_INDY cycles cpu b)))) 5"
  by (simp_all add: case_LDA_IM_def case_LDA_ZP_def case_LDA_ZPX_def case_LDA_ABS_def
      case_LDA_ABSX_def case_LDA_ABSY_def case_LDA_INDX_def case_LDA_INDY_def Let_def
      split_beta)

lemma U_forced_AND:
  shows "bit (flags (fst (snd (case_AND_IM cycles cpu b)))) 5"
    and "bit (flags (fst (snd (case_AND_ZP cycles cpu b)))) 5"
    and "bit (flags (fst (snd (case_AND_ZPX cycles cpu b)))) 5"
    and "bit (flags (fst (snd (case_AND_ABS cycles cpu b)))) 5"
    and "bit (flags (fst (snd (case_AND_ABSX cycles cpu b)))) 5"
    and "bit (flags (fst (snd (case_AND_ABSY cycles cpu b)))) 5"
    and "bit (flags (fst (snd (case_AND_INDX cycles cpu b)))) 5"
    and "bit (flags (fst (snd (case_AND_INDY cycles cpu b)))) 5"
  by (simp_all add: case_AND_IM_def case_AND_ZP_def case_AND_ZPX_def case_AND_ABS_def
      case_AND_ABSX_def case_AND_ABSY_def case_AND_INDX_def case_AND_INDY_def Let_def
      split_beta)

lemma U_forced_ADC:
  shows "bit (flags (fst (snd (case_ADC_IM cycles cpu b)))) 5"
  by (simp add: case_ADC_IM_def Let_def split_beta)

lemma U_forced_ASL:
  shows "bit (flags (fst (snd (case_ASL_ACC cycles cpu b)))) 5"
    and "bit (flags (fst (snd (case_ASL_ZP cycles cpu b)))) 5"
    and "bit (flags (fst (snd (case_ASL_ZPX cycles cpu b)))) 5"
    and "bit (flags (fst (snd (case_ASL_ABS cycles cpu b)))) 5"
    and "bit (flags (fst (snd (case_ASL_ABSX cycles cpu b)))) 5"
  by (simp_all add: case_ASL_ACC_def case_ASL_ZP_def case_ASL_ZPX_def case_ASL_ABS_def
      case_ASL_ABSX_def Let_def split_beta)

lemma U_forced_BIT:
  shows "bit (flags (fst (snd (case_BIT_ZP cycles cpu b)))) 5"
    and "bit (flags (fst (snd (case_BIT_ABS cycles cpu b)))) 5"
  by (simp_all add: case_BIT_ZP_def case_BIT_ABS_def Let_def split_beta)

lemma U_forced_BRK:
  shows "bit (flags (fst (snd (case_BRK_IMP cycles cpu b)))) 5"
  by (simp add: case_BRK_IMP_def Let_def split_beta)

lemma flags_kept_STA:
  shows "flags (fst (snd (case_STA_ZP cycles cpu b))) = flags cpu"
    and "flags (fst (snd (case_STA_ZPX cycles cpu b))) = flags cpu"
    and "flags (fst (snd (case_STA_ABS cycles cpu b))) = flags cpu"
    and "flags (fst (snd (case_STA_ABSX cycles cpu b))) = flags cpu"
    and "flags (fst (snd (case_STA_ABSY cycles cpu b))) = flags cpu"
    and "flags (fst (snd (case_STA_INDX cycles cpu b))) = flags cpu"
    and "flags (fst (snd (case_STA_INDY cycles cpu b))) = flags cpu"
  by (simp_all add: case_STA_ZP_def case_STA_ZPX_def case_STA_ABS_def case_STA_ABSX_def
      case_STA_ABSY_def case_STA_INDX_def case_STA_INDY_def Let_def split_beta)

lemma flags_kept_BCC_BCS:
  shows "flags (fst (snd (case_BCC_REL cycles cpu b))) = flags cpu"
    and "flags (fst (snd (case_BCS_REL cycles cpu b))) = flags cpu"
  by (simp_all add: case_BCC_REL_def case_BCS_REL_def Let_def split_beta)

text \<open>
  The fall-through chain, from its last label back to \<^verbatim>\<open>OPC_BNE_REL\<close>: every entry
  ends in the \<^verbatim>\<open>BIT\<close> case, which sets flags.
\<close>

lemma U_forced_BVS: "bit (flags (fst (snd (case_BVS_REL cycles cpu b)))) 5"
  by (simp add: case_BVS_REL_def Let_def split_beta U_forced_BIT(1))

lemma U_forced_BVC: "bit (flags (fst (snd (case_BVC_REL cycles cpu b)))) 5"
  by (simp add: case_BVC_REL_def Let_def split_beta U_forced_BVS)

lemma U_forced_BMI: "bit (flags (fst (snd (case_BMI_REL cycles cpu b)))) 5"
  by (simp add: case_BMI_REL_def Let_def split_beta U_forced_BVC)

lemma U_forced_BPL: "bit (flags (fst (snd (case_BPL_REL cycles cpu b)))) 5"
  by (simp add: case_BPL_REL_def Let_def split_beta U_forced_BMI)

lemma U_forced_BEQ: "bit (flags (fst (snd (case_BEQ_REL cycles cpu b)))) 5"
  by (simp add: case_BEQ_REL_def Let_def split_beta U_forced_BPL)

lemma U_forced_BNE: "bit (flags (fst (snd (case_BNE_REL cycles cpu b)))) 5"
  by (simp add: case_BNE_REL_def Let_def split_beta U_forced_BEQ)

lemmas U_forced_cases =
  U_forced_LDA U_forced_AND U_forced_ADC U_forced_ASL U_forced_BIT U_forced_BRK
  U_forced_BVS U_forced_BVC U_forced_BMI U_forced_BPL U_forced_BEQ U_forced_BNE

lemmas flags_kept_cases = flags_kept_STA flags_kept_BCC_BCS

lemma U_or_kept_switch:
  "bit (flags (fst (snd (cpu_switch opcode cycles cpu b)))) 5 \<or>
   flags (fst (snd (cpu_switch opcode cycles cpu b))) = flags cpu"
  unfolding cpu_switch_def
  by (simp add: U_forced_cases flags_kept_cases opcode_defs)

lemma U_or_kept_body:
  "bit (flags (fst (snd (cpu_execute_body cycles cpu b)))) 5 \<or>
   flags (fst (snd (cpu_execute_body cycles cpu b))) = flags cpu"
  using U_or_kept_switch [of "mem b (PC cpu)" cycles "cpu\<lparr>PC := PC cpu + 1\<rparr>"]
  by (simp add: cpu_execute_body_def fetch_program_byte_eq)

text \<open>Once bit 5 is set, an iteration keeps it set.\<close>

lemma U_kept_body:
  "bit (flags cpu) 5 \<Longrightarrow> bit (flags (fst (snd (cpu_execute_body cycles cpu b)))) 5"
  using U_or_kept_body [of cycles cpu b] by auto

text \<open>The loop: fixpoint induction over \<open>cpu_execute\<close>, for the runs that return.\<close>

lemma cpu_execute_U_or_kept:
  assumes "cpu_execute cycles cpu b = Some r"
  shows "bit (flags (fst r)) 5 \<or> flags (fst r) = flags cpu"
proof (rule cpu_execute.raw_induct
    [where P = "\<lambda>cycles cpu b r. bit (flags (fst r)) 5 \<or> flags (fst r) = flags cpu",
      OF _ assms])
  fix f c0 cpu0 b0 r0
  assume IH: "\<And>c1 cpu1 b1 r1.
                 f c1 cpu1 b1 = Some r1 \<Longrightarrow> bit (flags (fst r1)) 5 \<or> flags (fst r1) = flags cpu1"
    and step: "(if 0 < c0
                then case cpu_execute_body c0 cpu0 b0 of (c', cpu', b') \<Rightarrow> f c' cpu' b'
                else Some (cpu0, b0)) = Some r0"
  show "bit (flags (fst r0)) 5 \<or> flags (fst r0) = flags cpu0"
  proof (cases "0 < c0")
    case True
    obtain c' cpu' b' where body: "cpu_execute_body c0 cpu0 b0 = (c', cpu', b')"
      by (cases "cpu_execute_body c0 cpu0 b0") auto
    with True step have run: "f c' cpu' b' = Some r0" by simp
    from U_or_kept_body [of c0 cpu0 b0] body
    have first: "bit (flags cpu') 5 \<or> flags cpu' = flags cpu0" by simp
    from IH [OF run] have rest: "bit (flags (fst r0)) 5 \<or> flags (fst r0) = flags cpu'" .
    from first rest show ?thesis by auto
  next
    case False
    with step show ?thesis by auto
  qed
qed

subsection \<open>Single instructions\<close>

lemma spin_bus_mem: "mem spin_bus 0x02FE = 0x90" "mem spin_bus 0x02FF = 0xFE"
  by (simp_all add: spin_bus_def opcode_defs bus_reset_def)

text \<open>
  One iteration on the two-byte loop, from any bus state that holds the same memory:
  two program fetches, the counter loses 4, the CPU is back where it was.
\<close>

lemma spin_body:
  assumes "mem b = mem spin_bus"
  shows "cpu_execute_body cycles spin_cpu b =
           (cycles - 4, spin_cpu,
            b\<lparr>accesses := accesses b @ [Bus_Read 0x02FE, Bus_Read 0x02FF]\<rparr>)"
  using spin_bus_mem assms
  by (simp add: spin_cpu_def cpu_execute_body_def fetch_program_byte_eq cpu_switch_def
      opcode_defs case_BCC_REL_def branch_def cpu_read_flag_def Let_def)

text \<open>So a run on that loop that returns started from an even counter.\<close>

lemma spin_even:
  assumes "cpu_execute cycles cpu b = Some r"
  shows "cpu = spin_cpu \<and> mem b = mem spin_bus \<longrightarrow> even cycles"
proof (rule cpu_execute.raw_induct
    [where P = "\<lambda>cycles cpu b r. cpu = spin_cpu \<and> mem b = mem spin_bus \<longrightarrow> even cycles",
      OF _ assms])
  fix f c0 cpu0 b0 r0
  assume IH: "\<And>c1 cpu1 b1 r1.
                 f c1 cpu1 b1 = Some r1 \<Longrightarrow> cpu1 = spin_cpu \<and> mem b1 = mem spin_bus \<longrightarrow> even c1"
    and step: "(if 0 < c0
                then case cpu_execute_body c0 cpu0 b0 of (c', cpu', b') \<Rightarrow> f c' cpu' b'
                else Some (cpu0, b0)) = Some r0"
  show "cpu0 = spin_cpu \<and> mem b0 = mem spin_bus \<longrightarrow> even c0"
  proof
    assume eq: "cpu0 = spin_cpu \<and> mem b0 = mem spin_bus"
    show "even c0"
    proof (cases "0 < c0")
      case True
      define b1 where "b1 = b0\<lparr>accesses := accesses b0 @ [Bus_Read 0x02FE, Bus_Read 0x02FF]\<rparr>"
      from eq have "cpu_execute_body c0 cpu0 b0 = (c0 - 4, spin_cpu, b1)"
        by (simp add: spin_body b1_def)
      with True step have "f (c0 - 4) spin_cpu b1 = Some r0" by simp
      moreover from eq have "mem b1 = mem spin_bus" by (simp add: b1_def)
      ultimately have "even (c0 - 4)" using IH by blast
      then show ?thesis by simp
    next
      case False
      then have "c0 = 0" by (simp add: word_gt_0)
      then show ?thesis by simp
    qed
  qed
qed

lemma LDA_ABSX_body:
  assumes "mem b (PC cpu) = 0xBD"
    and "base = (ucast (mem b (PC cpu + 1)) OR push_bit 8 (ucast (mem b (PC cpu + 2))) :: Word)"
    and "addr = base + ucast (X (regs cpu))"
  shows "cpu_execute_body cycles cpu b =
           (cycles - (4 + of_bool (addr AND 0xFF00 \<noteq> base AND 0xFF00)),
            set_NZ_flags (cpu\<lparr>PC := PC cpu + 3, regs := (regs cpu)\<lparr>A := mem b addr\<rparr>\<rparr>),
            b\<lparr>accesses := accesses b @
                 [Bus_Read (PC cpu), Bus_Read (PC cpu + 1), Bus_Read (PC cpu + 2),
                  Bus_Read addr]\<rparr>)"
proof -
  have sw: "cpu_switch 0xBD = case_LDA_ABSX"
    by (rule ext)+ (simp add: cpu_switch_def opcode_defs)
  have a: "PC cpu + 1 + 1 = PC cpu + 2" "PC cpu + 1 + 2 = PC cpu + 3" by simp_all
  show ?thesis
    unfolding cpu_execute_body_def fetch_program_byte_eq Let_def prod.case assms(1) sw
      case_LDA_ABSX_def indexed_LDA_ABS_def fetch_program_word_eq
    by (simp add: a assms(2,3))
qed




text \<open>
  Every iteration begins with the opcode fetch: whatever the opcode, the log after one
  iteration is the log before it, then the read at \<open>PC\<close>, then what the case adds.
\<close>

subsection \<open>The access log only grows\<close>

lemmas log_defs =
  fetch_program_byte_eq fetch_program_word_eq indexed_LDA_ABS_def indexed_AND_ABS_def
  indexed_STA_ABS_def branch_def stack_push_eq Let_def split_beta

lemma log_LDA:
  shows "\<exists>xs. accesses (snd (snd (case_LDA_IM cycles cpu b))) = accesses b @ xs"
    and "\<exists>xs. accesses (snd (snd (case_LDA_ZP cycles cpu b))) = accesses b @ xs"
    and "\<exists>xs. accesses (snd (snd (case_LDA_ZPX cycles cpu b))) = accesses b @ xs"
    and "\<exists>xs. accesses (snd (snd (case_LDA_ABS cycles cpu b))) = accesses b @ xs"
    and "\<exists>xs. accesses (snd (snd (case_LDA_ABSX cycles cpu b))) = accesses b @ xs"
    and "\<exists>xs. accesses (snd (snd (case_LDA_ABSY cycles cpu b))) = accesses b @ xs"
    and "\<exists>xs. accesses (snd (snd (case_LDA_INDX cycles cpu b))) = accesses b @ xs"
    and "\<exists>xs. accesses (snd (snd (case_LDA_INDY cycles cpu b))) = accesses b @ xs"
  by (simp_all add: case_LDA_IM_def case_LDA_ZP_def case_LDA_ZPX_def case_LDA_ABS_def
      case_LDA_ABSX_def case_LDA_ABSY_def case_LDA_INDX_def case_LDA_INDY_def log_defs)

lemma log_STA:
  shows "\<exists>xs. accesses (snd (snd (case_STA_ZP cycles cpu b))) = accesses b @ xs"
    and "\<exists>xs. accesses (snd (snd (case_STA_ZPX cycles cpu b))) = accesses b @ xs"
    and "\<exists>xs. accesses (snd (snd (case_STA_ABS cycles cpu b))) = accesses b @ xs"
    and "\<exists>xs. accesses (snd (snd (case_STA_ABSX cycles cpu b))) = accesses b @ xs"
    and "\<exists>xs. accesses (snd (snd (case_STA_ABSY cycles cpu b))) = accesses b @ xs"
    and "\<exists>xs. accesses (snd (snd (case_STA_INDX cycles cpu b))) = accesses b @ xs"
    and "\<exists>xs. accesses (snd (snd (case_STA_INDY cycles cpu b))) = accesses b @ xs"
  by (simp_all add: case_STA_ZP_def case_STA_ZPX_def case_STA_ABS_def case_STA_ABSX_def
      case_STA_ABSY_def case_STA_INDX_def case_STA_INDY_def log_defs)

lemma log_AND:
  shows "\<exists>xs. accesses (snd (snd (case_AND_IM cycles cpu b))) = accesses b @ xs"
    and "\<exists>xs. accesses (snd (snd (case_AND_ZP cycles cpu b))) = accesses b @ xs"
    and "\<exists>xs. accesses (snd (snd (case_AND_ZPX cycles cpu b))) = accesses b @ xs"
    and "\<exists>xs. accesses (snd (snd (case_AND_ABS cycles cpu b))) = accesses b @ xs"
    and "\<exists>xs. accesses (snd (snd (case_AND_ABSX cycles cpu b))) = accesses b @ xs"
    and "\<exists>xs. accesses (snd (snd (case_AND_ABSY cycles cpu b))) = accesses b @ xs"
    and "\<exists>xs. accesses (snd (snd (case_AND_INDX cycles cpu b))) = accesses b @ xs"
    and "\<exists>xs. accesses (snd (snd (case_AND_INDY cycles cpu b))) = accesses b @ xs"
  by (simp_all add: case_AND_IM_def case_AND_ZP_def case_AND_ZPX_def case_AND_ABS_def
      case_AND_ABSX_def case_AND_ABSY_def case_AND_INDX_def case_AND_INDY_def log_defs)

lemma log_ADC:
  shows "\<exists>xs. accesses (snd (snd (case_ADC_IM cycles cpu b))) = accesses b @ xs"
  by (simp add: case_ADC_IM_def log_defs)

lemma log_ASL:
  shows "\<exists>xs. accesses (snd (snd (case_ASL_ACC cycles cpu b))) = accesses b @ xs"
    and "\<exists>xs. accesses (snd (snd (case_ASL_ZP cycles cpu b))) = accesses b @ xs"
    and "\<exists>xs. accesses (snd (snd (case_ASL_ZPX cycles cpu b))) = accesses b @ xs"
    and "\<exists>xs. accesses (snd (snd (case_ASL_ABS cycles cpu b))) = accesses b @ xs"
    and "\<exists>xs. accesses (snd (snd (case_ASL_ABSX cycles cpu b))) = accesses b @ xs"
  by (simp_all add: case_ASL_ACC_def case_ASL_ZP_def case_ASL_ZPX_def case_ASL_ABS_def
      case_ASL_ABSX_def log_defs)

lemma log_BIT:
  shows "\<exists>xs. accesses (snd (snd (case_BIT_ZP cycles cpu b))) = accesses b @ xs"
    and "\<exists>xs. accesses (snd (snd (case_BIT_ABS cycles cpu b))) = accesses b @ xs"
  by (simp_all add: case_BIT_ZP_def case_BIT_ABS_def log_defs)

lemma log_BRK:
  shows "\<exists>xs. accesses (snd (snd (case_BRK_IMP cycles cpu b))) = accesses b @ xs"
  by (simp add: case_BRK_IMP_def log_defs)

lemma log_BCC_BCS:
  shows "\<exists>xs. accesses (snd (snd (case_BCC_REL cycles cpu b))) = accesses b @ xs"
    and "\<exists>xs. accesses (snd (snd (case_BCS_REL cycles cpu b))) = accesses b @ xs"
  by (simp_all add: case_BCC_REL_def case_BCS_REL_def log_defs)

lemma log_BVS: "\<exists>xs. accesses (snd (snd (case_BVS_REL cycles cpu b))) = accesses b @ xs"
proof -
  obtain c1 cpu1 b1 where br: "branch cycles cpu b (cpu_read_flag V cpu) 1 = (c1, cpu1, b1)"
    by (cases "branch cycles cpu b (cpu_read_flag V cpu) 1") auto
  then have "accesses b1 = accesses b @ [Bus_Read (PC cpu)]"
    by (auto simp: log_defs)
  moreover obtain xs where "accesses (snd (snd (case_BIT_ZP c1 cpu1 b1))) = accesses b1 @ xs"
    using log_BIT(1) by blast
  ultimately show ?thesis
    by (simp add: case_BVS_REL_def br)
qed

lemma log_BVC: "\<exists>xs. accesses (snd (snd (case_BVC_REL cycles cpu b))) = accesses b @ xs"
proof -
  obtain c1 cpu1 b1 where br: "branch cycles cpu b (cpu_read_flag V cpu) 0 = (c1, cpu1, b1)"
    by (cases "branch cycles cpu b (cpu_read_flag V cpu) 0") auto
  then have "accesses b1 = accesses b @ [Bus_Read (PC cpu)]"
    by (auto simp: log_defs)
  moreover obtain xs where "accesses (snd (snd (case_BVS_REL c1 cpu1 b1))) = accesses b1 @ xs"
    using log_BVS by blast
  ultimately show ?thesis
    by (simp add: case_BVC_REL_def br)
qed

lemma log_BMI: "\<exists>xs. accesses (snd (snd (case_BMI_REL cycles cpu b))) = accesses b @ xs"
proof -
  obtain c1 cpu1 b1 where br: "branch cycles cpu b (cpu_read_flag N cpu) 1 = (c1, cpu1, b1)"
    by (cases "branch cycles cpu b (cpu_read_flag N cpu) 1") auto
  then have "accesses b1 = accesses b @ [Bus_Read (PC cpu)]"
    by (auto simp: log_defs)
  moreover obtain xs where "accesses (snd (snd (case_BVC_REL c1 cpu1 b1))) = accesses b1 @ xs"
    using log_BVC by blast
  ultimately show ?thesis
    by (simp add: case_BMI_REL_def br)
qed

lemma log_BPL: "\<exists>xs. accesses (snd (snd (case_BPL_REL cycles cpu b))) = accesses b @ xs"
proof -
  obtain c1 cpu1 b1 where br: "branch cycles cpu b (cpu_read_flag N cpu) 0 = (c1, cpu1, b1)"
    by (cases "branch cycles cpu b (cpu_read_flag N cpu) 0") auto
  then have "accesses b1 = accesses b @ [Bus_Read (PC cpu)]"
    by (auto simp: log_defs)
  moreover obtain xs where "accesses (snd (snd (case_BMI_REL c1 cpu1 b1))) = accesses b1 @ xs"
    using log_BMI by blast
  ultimately show ?thesis
    by (simp add: case_BPL_REL_def br)
qed

lemma log_BEQ: "\<exists>xs. accesses (snd (snd (case_BEQ_REL cycles cpu b))) = accesses b @ xs"
proof -
  obtain c1 cpu1 b1 where br: "branch cycles cpu b (cpu_read_flag Z cpu) 1 = (c1, cpu1, b1)"
    by (cases "branch cycles cpu b (cpu_read_flag Z cpu) 1") auto
  then have "accesses b1 = accesses b @ [Bus_Read (PC cpu)]"
    by (auto simp: log_defs)
  moreover obtain xs where "accesses (snd (snd (case_BPL_REL c1 cpu1 b1))) = accesses b1 @ xs"
    using log_BPL by blast
  ultimately show ?thesis
    by (simp add: case_BEQ_REL_def br)
qed

lemma log_BNE: "\<exists>xs. accesses (snd (snd (case_BNE_REL cycles cpu b))) = accesses b @ xs"
proof -
  obtain c1 cpu1 b1 where br: "branch cycles cpu b (cpu_read_flag Z cpu) 0 = (c1, cpu1, b1)"
    by (cases "branch cycles cpu b (cpu_read_flag Z cpu) 0") auto
  then have "accesses b1 = accesses b @ [Bus_Read (PC cpu)]"
    by (auto simp: log_defs)
  moreover obtain xs where "accesses (snd (snd (case_BEQ_REL c1 cpu1 b1))) = accesses b1 @ xs"
    using log_BEQ by blast
  ultimately show ?thesis
    by (simp add: case_BNE_REL_def br)
qed

lemmas log_cases =
  log_LDA log_STA log_AND log_ADC log_ASL log_BIT log_BRK log_BCC_BCS
  log_BVS log_BVC log_BMI log_BPL log_BEQ log_BNE

lemma log_switch:
  "\<exists>xs. accesses (snd (snd (cpu_switch opcode cycles cpu b))) = accesses b @ xs"
  unfolding cpu_switch_def by (simp add: log_cases)

text \<open>
  Every iteration begins with the opcode fetch: whatever the opcode, the log after one
  iteration is the log before it, then the read at \<open>PC\<close>, then what the case adds.
\<close>

lemma log_body:
  "\<exists>xs. accesses (snd (snd (cpu_execute_body cycles cpu b))) =
          accesses b @ Bus_Read (PC cpu) # xs"
  using log_switch [of "mem b (PC cpu)" cycles "cpu\<lparr>PC := PC cpu + 1\<rparr>"
      "b\<lparr>accesses := accesses b @ [Bus_Read (PC cpu)]\<rparr>"]
  by (simp add: cpu_execute_body_def fetch_program_byte_eq)

text \<open>A run that returns has added to the log, and added something when the budget was not 0.\<close>

lemma log_cpu_execute:
  assumes "cpu_execute cycles cpu b = Some r"
  shows "\<exists>xs. accesses (snd r) = accesses b @ xs \<and> (xs = [] \<longleftrightarrow> cycles = 0)"
proof (rule cpu_execute.raw_induct
    [where P = "\<lambda>cycles cpu b r.
                  \<exists>xs. accesses (snd r) = accesses b @ xs \<and> (xs = [] \<longleftrightarrow> cycles = 0)",
      OF _ assms])
  fix f c0 cpu0 b0 r0
  assume IH: "\<And>c1 cpu1 b1 r1. f c1 cpu1 b1 = Some r1 \<Longrightarrow>
                \<exists>xs. accesses (snd r1) = accesses b1 @ xs \<and> (xs = [] \<longleftrightarrow> c1 = 0)"
    and step: "(if 0 < c0
                then case cpu_execute_body c0 cpu0 b0 of (c', cpu', b') \<Rightarrow> f c' cpu' b'
                else Some (cpu0, b0)) = Some r0"
  show "\<exists>xs. accesses (snd r0) = accesses b0 @ xs \<and> (xs = [] \<longleftrightarrow> c0 = 0)"
  proof (cases "0 < c0")
    case True
    obtain c' cpu' b' where body: "cpu_execute_body c0 cpu0 b0 = (c', cpu', b')"
      by (cases "cpu_execute_body c0 cpu0 b0") auto
    with True step have run: "f c' cpu' b' = Some r0" by simp
    from log_body [of c0 cpu0 b0] body
    obtain xs where xs: "accesses b' = accesses b0 @ Bus_Read (PC cpu0) # xs" by auto
    from IH [OF run] obtain ys where "accesses (snd r0) = accesses b' @ ys" by blast
    with xs have "accesses (snd r0) = accesses b0 @ (Bus_Read (PC cpu0) # xs @ ys)" by simp
    with True show ?thesis by (auto simp: word_gt_0)
  next
    case False
    then have "c0 = 0" by (simp add: word_gt_0)
    with step show ?thesis by auto
  qed
qed

section \<open>Reset, stack and the empty budget\<close>

text \<open>
  C5, amended. For every CPU, \<open>cpu_reset\<close> of the current \<^verbatim>\<open>cpu.c\<close> establishes
  \<open>PC = 0x01FF\<close> and \<open>SP = 0xFF\<close> (not \<open>0x0100\<close> and \<open>0xFD\<close>), \<open>A = X = Y = 0\<close>,
  \<open>P = 0b00100100\<close>, in which exactly the I and U bits are set, and every byte of the
  memory behind the bus is zero.
\<close>

theorem cpu_reset_state:
  "(let (cpu', b') = cpu_reset cpu b
    in PC cpu' = 0x01FF \<and> SP cpu' = 0xFF \<and>
       A (regs cpu') = 0x00 \<and> X (regs cpu') = 0x00 \<and> Y (regs cpu') = 0x00 \<and>
       flags cpu' = 0x24 \<and>
       flags cpu' = push_bit (Flags_val I) 1 OR push_bit (Flags_val U) 1 \<and>
       mem b' = (\<lambda>addr. 0x00))"
  by (simp add: cpu_reset_def Let_def bus_reset_def mem_reset_def)

text \<open>
  The values \<open>PC = 0x0100\<close> and \<open>SP = 0xFD\<close> are those of the earlier revision of
  \<^verbatim>\<open>cpu.c\<close> (\<open>cpu_reset_old\<close>); the current \<open>cpu_reset\<close> does not produce them, and
  the harness's stack tests expect \<open>SP = 0xFF\<close> after a reset.
\<close>

theorem cpu_reset_spec_values_counterexample:
  "\<not> (let (cpu', b') = cpu_reset blank_cpu boot_bus
       in PC cpu' = 0x0100 \<and> SP cpu' = 0xFD \<and>
          A (regs cpu') = 0x00 \<and> X (regs cpu') = 0x00 \<and> Y (regs cpu') = 0x00 \<and>
          flags cpu' = 0x24 \<and> mem b' = (\<lambda>addr. 0x00))"
  by (simp add: cpu_reset_def Let_def blank_cpu_def)

lemma cpu_reset_old_state:
  "(let (cpu', b') = cpu_reset_old cpu b
    in PC cpu' = 0x0100 \<and> SP cpu' = 0xFD \<and>
       A (regs cpu') = 0x00 \<and> X (regs cpu') = 0x00 \<and> Y (regs cpu') = 0x00 \<and>
       flags cpu' = 0x24 \<and> mem b' = (\<lambda>addr. 0x00))"
  by (simp add: cpu_reset_old_def Let_def bus_reset_def mem_reset_def)

text \<open>
  C9. For every CPU state and bytes \<open>hi\<close>, \<open>lo\<close>: \<open>stack_push hi\<close>, \<open>stack_push lo\<close> and two
  \<open>stack_pop\<close> calls return \<open>lo\<close> first and \<open>hi\<close> second and restore \<open>SP\<close> (indeed the
  whole CPU record). The two pushes change the memory at \<open>0x100 + SP\<close> and
  \<open>0x100 + (SP - 1)\<close> only; each pop reads the cell \<open>0x100 + SP\<close> of the stack
  pointer it has just incremented and depends on no other cell; the four bus accesses
  are these two writes and two reads, in this order; the stack pointer is an 8-bit
  value throughout, and both addresses lie in \<open>0x0100 .. 0x01FF\<close>.
\<close>

theorem stack_push_pop_roundtrip:
  "(let (cpu1, b1) = stack_push hi cpu b;
        (cpu2, b2) = stack_push lo cpu1 b1;
        (v1, cpu3, b3) = stack_pop cpu2 b2;
        (v2, cpu4, b4) = stack_pop cpu3 b3
    in v1 = lo \<and> v2 = hi \<and> SP cpu4 = SP cpu \<and> cpu4 = cpu \<and>
       mem b2 = (mem b)(0x100 + ucast (SP cpu) := hi, 0x100 + ucast (SP cpu - 1) := lo) \<and>
       mem b4 = mem b2 \<and>
       v1 = fst (bus_read (0x100 + ucast (SP cpu3)) b2) \<and>
       v2 = fst (bus_read (0x100 + ucast (SP cpu4)) b3) \<and>
       (case stack_pop cpu2 b2 of (v, c, _) \<Rightarrow> (v, c)) =
         (case stack_pop cpu2
                 (b2\<lparr>mem := \<lambda>addr. if addr = 0x100 + ucast (SP cpu3) then mem b2 addr
                                     else 0x00\<rparr>)
          of (v, c, _) \<Rightarrow> (v, c)) \<and>
       (case stack_pop cpu3 b3 of (v, c, _) \<Rightarrow> (v, c)) =
         (case stack_pop cpu3
                 (b3\<lparr>mem := \<lambda>addr. if addr = 0x100 + ucast (SP cpu4) then mem b3 addr
                                     else 0x00\<rparr>)
          of (v, c, _) \<Rightarrow> (v, c)) \<and>
       accesses b4 = accesses b @
         [Bus_Write (0x100 + ucast (SP cpu)) hi, Bus_Write (0x100 + ucast (SP cpu - 1)) lo,
          Bus_Read (0x100 + ucast (SP cpu - 1)), Bus_Read (0x100 + ucast (SP cpu))] \<and>
       SP cpu1 = SP cpu - 1 \<and> SP cpu2 = SP cpu - 2 \<and> SP cpu3 = SP cpu - 1 \<and>
       0x0100 \<le> (0x100 + ucast (SP cpu) :: Word) \<and>
       (0x100 + ucast (SP cpu) :: Word) \<le> 0x01FF \<and>
       0x0100 \<le> (0x100 + ucast (SP cpu - 1) :: Word) \<and>
       (0x100 + ucast (SP cpu - 1) :: Word) \<le> 0x01FF)"
proof -
  have ne: "(0x100 + ucast (SP cpu) :: Word) \<noteq> 0x100 + ucast (SP cpu - 1)"
    by (simp only: stack_addr_inj) simp
  show ?thesis
    using ne stack_addr_range [of "SP cpu"] stack_addr_range [of "SP cpu - 1"]
    by (simp add: stack_push_eq stack_pop_eq Let_def)
qed

text \<open>
  C10. With a cycle budget of 0 the loop test fails at once and \<open>cpu_execute\<close> returns:
  the access log is the one it was called with, so no \<open>bus_read\<close> and no \<open>bus_write\<close>
  took place, and the CPU record (\<open>PC\<close>, \<open>SP\<close>, \<open>A\<close>, \<open>X\<close>, \<open>Y\<close>, \<open>P\<close>) and all of the
  memory are as they were.
\<close>

theorem cpu_execute_zero_budget:
  "(case cpu_execute 0 cpu b of
      None \<Rightarrow> False
    | Some (cpu', b') \<Rightarrow>
        accesses b' = accesses b \<and> mem b' = mem b \<and>
        PC cpu' = PC cpu \<and> SP cpu' = SP cpu \<and>
        A (regs cpu') = A (regs cpu) \<and> X (regs cpu') = X (regs cpu) \<and>
        Y (regs cpu') = Y (regs cpu) \<and> flags cpu' = flags cpu \<and>
        cpu' = cpu \<and> b' = b)"
  by (subst cpu_execute.simps) simp

text \<open>
  The log tells the two budgets apart: a run with a budget other than 0 that returns has
  read the bus at least once, at the address of its first opcode.
\<close>

lemma cpu_execute_positive_budget_reads:
  assumes "cpu_execute cycles cpu b = Some (cpu', b')" and "cycles \<noteq> 0"
  shows "accesses b' \<noteq> accesses b"
  using log_cpu_execute [OF assms(1)] assms(2) by auto

section \<open>The unused flag\<close>

text \<open>
  C7, amended. For every initial CPU state (including states whose \<open>P\<close> register has
  bit 5 clear) and every program and cycle budget: after \<open>cpu_execute\<close> returns, bit 5
  (the U flag) of \<open>P\<close> is 1, or \<open>P\<close> still holds the value it had at the call.
\<close>

theorem cpu_execute_U_set_or_P_unchanged:
  assumes "cpu_execute cycles cpu b = Some (cpu', b')"
  shows "bit (flags cpu') (Flags_val U) \<or> flags cpu' = flags cpu"
  using cpu_execute_U_or_kept [OF assms] by simp

text \<open>
  The witness starts with bit 5 clear: \<^verbatim>\<open>LDA #$20\<close> from \<open>P = 0x00\<close> returns with
  \<open>P = 0x20\<close>, because \<open>cpu_set_flag\<close> forces the bit.
\<close>

theorem cpu_execute_U_set_or_P_unchanged_witness:
  "cpu_execute 2 lda_clear_cpu lda_bus =
     Some (\<lparr>PC = 0x0202, SP = 0xFF, regs = \<lparr>A = 0x20, X = 0x00, Y = 0x00\<rparr>, flags = 0x20\<rparr>,
           lda_bus\<lparr>accesses := accesses lda_bus @ [Bus_Read 0x0200, Bus_Read 0x0201]\<rparr>) \<and>
   flags lda_clear_cpu = 0x00 \<and>
   (bit (0x20 :: Byte) (Flags_val U) \<or> (0x20 :: Byte) = flags lda_clear_cpu)"
proof -
  have run: "cpu_execute 2 lda_clear_cpu lda_bus =
      Some (\<lparr>PC = 0x0202, SP = 0xFF, regs = \<lparr>A = 0x20, X = 0x00, Y = 0x00\<rparr>, flags = 0x20\<rparr>,
            lda_bus\<lparr>accesses := accesses lda_bus @ [Bus_Read 0x0200, Bus_Read 0x0201]\<rparr>)"
    by (simp add: cpu_execute.simps lda_clear_cpu_def lda_bus_def exec_defs case_LDA_IM_def)
  from run cpu_execute_U_set_or_P_unchanged [OF run] show ?thesis
    by (simp add: lda_clear_cpu_def)
qed

text \<open>
  A consequence: from a state with bit 5 set, as after \<open>cpu_reset\<close>, every run that
  returns ends with bit 5 set.
\<close>

lemma cpu_execute_keeps_U:
  assumes "cpu_execute cycles cpu b = Some (cpu', b')"
    and "bit (flags cpu) (Flags_val U)"
  shows "bit (flags cpu') (Flags_val U)"
  using cpu_execute_U_or_kept [OF assms(1)] assms(2) by auto

text \<open>
  Where bit 5 is clear before the call, nothing sets it unless an instruction that writes
  a flag runs: \<^verbatim>\<open>STA $10\<close> with a budget of 3 returns with the status byte still zero.
\<close>

theorem cpu_execute_U_clear_counterexample:
  "cpu_execute 3 sta_cpu sta_bus =
     Some (sta_cpu\<lparr>PC := 0x0202\<rparr>,
           sta_bus\<lparr>mem := (mem sta_bus)(0x0010 := 0x42),
                   accesses := accesses sta_bus @
                     [Bus_Read 0x0200, Bus_Read 0x0201, Bus_Write 0x0010 0x42]\<rparr>) \<and>
   \<not> bit (flags (sta_cpu\<lparr>PC := 0x0202\<rparr>)) (Flags_val U)"
  by (simp add: cpu_execute.simps sta_cpu_def sta_bus_def exec_defs case_STA_ZP_def)

section \<open>The cycle budget\<close>

text \<open>
  C1. The claim: every call of \<open>cpu_execute\<close> returns, and an instruction that costs more
  than the remaining budget ends the loop. The counter is an unsigned byte, so the
  subtraction wraps: on \<open>spin_cpu\<close>, \<open>spin_bus\<close> with a budget of 1 the taken,
  page-crossing \<^verbatim>\<open>BCC\<close> costs 4, leaves the counter at 253 with the CPU back at the same
  instruction, and the call never returns.
\<close>

theorem cpu_execute_overshoot_diverges:
  "cpu_execute_body 1 spin_cpu spin_bus =
     (253, spin_cpu,
      spin_bus\<lparr>accesses := accesses spin_bus @ [Bus_Read 0x02FE, Bus_Read 0x02FF]\<rparr>) \<and>
   (0 :: Byte) < 253 \<and>
   cpu_execute 1 spin_cpu spin_bus = None"
proof -
  have "cpu_execute 1 spin_cpu spin_bus = None"
  proof (cases "cpu_execute 1 spin_cpu spin_bus")
    case None
    then show ?thesis .
  next
    case (Some r)
    from spin_even [OF this] show ?thesis by simp
  qed
  then show ?thesis by (simp add: spin_body)
qed

text \<open>
  C8. \<^verbatim>\<open>LDA\<close> Absolute,X (opcode \<open>0xBD\<close>) loads \<open>A\<close> from \<open>base + X\<close> (a 16-bit sum) and
  deducts 4 cycles, and 5 exactly when the high byte of \<open>base + X\<close> differs from the high
  byte of \<open>base\<close>; with \<open>base = 0x03FF\<close> and \<open>X = 0x01\<close> it loads from \<open>0x0400\<close> and
  deducts 5. Here \<open>base\<close> is the little-endian word after the opcode. The instruction
  reads the bus four times (opcode, two operand bytes, the effective address) and leaves
  the memory as it was.
\<close>

theorem LDA_ABSX_page_cross:
  assumes "fst (bus_read (PC cpu) b) = OPC_LDA_ABSX"
  shows "let base = (ucast (fst (bus_read (PC cpu + 1) b))
                       OR push_bit 8 (ucast (fst (bus_read (PC cpu + 2) b))) :: Word);
             addr = base + ucast (X (regs cpu));
             (cycles', cpu', b') = cpu_execute_body cycles cpu b
         in A (regs cpu') = fst (bus_read addr b) \<and>
            cycles' = cycles - (if drop_bit 8 addr \<noteq> drop_bit 8 base then 5 else 4) \<and>
            (base = 0x03FF \<and> X (regs cpu) = 0x01 \<longrightarrow>
               addr = 0x0400 \<and> A (regs cpu') = fst (bus_read 0x0400 b) \<and>
               cycles' = cycles - 5) \<and>
            mem b' = mem b \<and>
            accesses b' = accesses b @
              [Bus_Read (PC cpu), Bus_Read (PC cpu + 1), Bus_Read (PC cpu + 2), Bus_Read addr]"
proof -
  define base where
    "base = (ucast (mem b (PC cpu + 1)) OR push_bit 8 (ucast (mem b (PC cpu + 2))) :: Word)"
  define addr where "addr = base + ucast (X (regs cpu))"
  from assms have op: "mem b (PC cpu) = 0xBD" by (simp add: opcode_defs)
  note body = LDA_ABSX_body [OF op base_def addr_def, of cycles]
  have cyc: "cycles - (4 + of_bool (addr AND 0xFF00 \<noteq> base AND 0xFF00))
               = cycles - (if drop_bit 8 addr \<noteq> drop_bit 8 base then 5 else 4)"
    by (simp add: page_eq_iff)
  have conc: "addr = 0x0400 \<and> drop_bit 8 addr \<noteq> drop_bit 8 base"
    if "base = 0x03FF" "X (regs cpu) = 0x01"
    using that by (simp add: addr_def)
  have "A (regs (fst (snd (cpu_execute_body cycles cpu b)))) = mem b addr"
    by (simp add: body)
  moreover have "fst (cpu_execute_body cycles cpu b)
      = cycles - (if drop_bit 8 addr \<noteq> drop_bit 8 base then 5 else 4)"
    by (simp only: body fst_conv cyc)
  moreover have "mem (snd (snd (cpu_execute_body cycles cpu b))) = mem b"
    by (simp add: body)
  moreover have "accesses (snd (snd (cpu_execute_body cycles cpu b))) = accesses b @
      [Bus_Read (PC cpu), Bus_Read (PC cpu + 1), Bus_Read (PC cpu + 2), Bus_Read addr]"
    by (simp add: body)
  ultimately show ?thesis
    using conc
    unfolding Let_def split_beta bus_read_eq fst_conv base_def [symmetric] addr_def [symmetric]
    by auto
qed

theorem LDA_ABSX_page_cross_witness:
  "fst (bus_read (PC absx_cpu) absx_bus) = OPC_LDA_ABSX \<and>
   (case cpu_execute_body 5 absx_cpu absx_bus of
      (cycles', cpu', b') \<Rightarrow>
         A (regs cpu') = fst (bus_read 0x0400 absx_bus) \<and> A (regs cpu') = 0x77 \<and>
         cycles' = 0 \<and>
         accesses b' = accesses absx_bus @
           [Bus_Read 0x0200, Bus_Read 0x0201, Bus_Read 0x0202, Bus_Read 0x0400])"
proof -
  have h: "fst (bus_read (PC absx_cpu) absx_bus) = OPC_LDA_ABSX"
    by (simp add: absx_cpu_def absx_bus_def opcode_defs bus_reset_def)
  show ?thesis
    using h LDA_ABSX_page_cross [OF h, of 5]
    by (simp add: Let_def split_beta absx_cpu_def absx_bus_def bus_reset_def mem_reset_def
        boot_bus_def)
qed

section \<open>Instructions that miss their description\<close>

text \<open>
  C2. The claim: \<^verbatim>\<open>ADC #imm\<close> sets Z and N from the truncated sum. \<open>case_ADC_IM\<close> calls
  \<open>set_NZ_flags\<close> before it stores the sum, so Z and N describe the old accumulator: the
  harness test \<open>0x7F + 0x01\<close> ends with \<open>A = 0x80\<close> and \<open>N = 0\<close>.
\<close>

theorem ADC_IM_flags_from_old_accumulator:
  "(case cpu_execute 2 adc_cpu adc_bus of
      None \<Rightarrow> False
    | Some (cpu', b') \<Rightarrow>
        A (regs cpu') = 0x80 \<and> cpu_read_flag N cpu' = 0 \<and> cpu_read_flag C cpu' = 0)"
  by (simp add: cpu_execute.simps adc_cpu_def adc_bus_def exec_defs case_ADC_IM_def)

text \<open>
  C4. The claim: each of \<^verbatim>\<open>BNE\<close>, \<^verbatim>\<open>BEQ\<close>, \<^verbatim>\<open>BPL\<close>, \<^verbatim>\<open>BMI\<close>, \<^verbatim>\<open>BVC\<close>, \<^verbatim>\<open>BVS\<close> is
  self-contained. Their cases have no \<^verbatim>\<open>break\<close>: one dispatch of a not-taken \<^verbatim>\<open>BNE\<close>
  with a budget of 2 runs the five branch cases below it and \<^verbatim>\<open>BIT\<close> zero-page as well,
  consumes seven operand bytes (\<open>PC\<close> ends at \<open>0x0208\<close>, not \<open>0x0202\<close>) and leaves the
  counter at 240, not 0.
\<close>

theorem BNE_falls_through:
  "cpu_execute_body 2 bne_cpu bne_bus =
     (240, bne_cpu\<lparr>PC := 0x0208\<rparr>,
      bne_bus\<lparr>accesses := accesses bne_bus @
        [Bus_Read 0x0200, Bus_Read 0x0201, Bus_Read 0x0202, Bus_Read 0x0203, Bus_Read 0x0204,
         Bus_Read 0x0205, Bus_Read 0x0206, Bus_Read 0x0207, Bus_Read 0x0000]\<rparr>)"
  apply (simp add: bne_cpu_def bne_bus_def cpu_execute_body_def cpu_switch_def opcode_defs
      fetch_program_byte_eq bus_reset_def mem_reset_def boot_bus_def)
  apply (simp add: case_BNE_REL_def branch_def fetch_program_byte_eq cpu_read_flag_def)
  apply (simp add: case_BEQ_REL_def branch_def fetch_program_byte_eq cpu_read_flag_def)
  apply (simp add: case_BPL_REL_def branch_def fetch_program_byte_eq cpu_read_flag_def)
  apply (simp add: case_BMI_REL_def branch_def fetch_program_byte_eq cpu_read_flag_def)
  apply (simp add: case_BVC_REL_def branch_def fetch_program_byte_eq cpu_read_flag_def)
  apply (simp add: case_BVS_REL_def branch_def fetch_program_byte_eq cpu_read_flag_def)
  apply (simp add: case_BIT_ZP_def fetch_program_byte_eq read_bit_def cpu_set_flag_def)
  done

text \<open>
  C6. The claim: \<^verbatim>\<open>ASL\<close> Zero-page,X shifts the byte at \<open>(op + X) mod 256\<close> in place.
  \<open>case_ASL_ZPX\<close> reads and writes at \<open>op\<close>: in the harness test (\<open>op = 0x10\<close>,
  \<open>X = 0x04\<close>, \<open>0x08\<close> at \<open>0x14\<close>) the byte at \<open>0x14\<close> stays \<open>0x08\<close> and the byte at
  \<open>0x10\<close> is the one read and rewritten.
\<close>

theorem ASL_ZPX_ignores_X:
  "(case cpu_execute 6 asl_cpu asl_bus of
      None \<Rightarrow> False
    | Some (cpu', b') \<Rightarrow>
        fst (bus_read 0x0014 b') = 0x08 \<and> mem b' = (mem asl_bus)(0x0010 := 0x00) \<and>
        accesses b' = accesses asl_bus @
          [Bus_Read 0x0200, Bus_Read 0x0201, Bus_Read 0x0010, Bus_Write 0x0010 0x00])"
  by (simp add: cpu_execute.simps asl_cpu_def asl_bus_def exec_defs case_ASL_ZPX_def)

section \<open>The break instruction\<close>




end
